theory Spec2Isabelle
  imports Complex_Main
begin

section \<open>JavaScript values used by the collector\<close>

text \<open>
  A JavaScript \<^verbatim>\<open>number\<close> is an IEEE-754 double: \<^verbatim>\<open>NaN\<close>, an infinity, or a finite
  value, which is modelled by the real number it denotes (\<open>+0\<close> and \<open>-0\<close> are both
  \<open>Fin 0\<close>: they compare equal and are both falsy). Only comparisons and truthiness are
  computed here; arithmetic on doubles and the printing of numbers belong to the
  JavaScript engine and are taken from \<open>js_engine\<close> below.
\<close>

datatype jsnum = NaN | NegInf | Fin real | PosInf

text \<open>\<^verbatim>\<open>a < b\<close> on numbers: false as soon as one side is \<^verbatim>\<open>NaN\<close>.\<close>

fun js_lt :: "jsnum \<Rightarrow> jsnum \<Rightarrow> bool" where
  "js_lt (Fin a) (Fin b) = (a < b)"
| "js_lt NegInf (Fin b) = True"
| "js_lt NegInf PosInf = True"
| "js_lt (Fin a) PosInf = True"
| "js_lt a b = False"

text \<open>\<^verbatim>\<open>a > b\<close> is \<^verbatim>\<open>b < a\<close>; \<^verbatim>\<open>a <= b\<close> is \<^verbatim>\<open>a < b\<close> or numeric equality.\<close>

definition js_gt :: "jsnum \<Rightarrow> jsnum \<Rightarrow> bool" where
  "js_gt a b = js_lt b a"

definition js_le :: "jsnum \<Rightarrow> jsnum \<Rightarrow> bool" where
  "js_le a b = (js_lt a b \<or> (a \<noteq> NaN \<and> a = b))"

text \<open>\<^verbatim>\<open>!x\<close> on a number: \<^verbatim>\<open>0\<close> and \<^verbatim>\<open>NaN\<close> are falsy.\<close>

definition num_falsy :: "jsnum \<Rightarrow> bool" where
  "num_falsy x = (x = NaN \<or> x = Fin 0)"

text \<open>
  Strings are byte strings holding the UTF-8 encoding of the JavaScript string (the
  encoding in which the CSV body is sent). \<^verbatim>\<open>Array.prototype.join\<close>:
\<close>

fun joinWith :: "string \<Rightarrow> string list \<Rightarrow> string" where
  "joinWith sep [] = []"
| "joinWith sep [x] = x"
| "joinWith sep (x # y # ys) = x @ sep @ joinWith sep (y # ys)"

text \<open>\<^verbatim>\<open>a || b\<close> on strings: the empty string is falsy.\<close>

definition str_or :: "string \<Rightarrow> string \<Rightarrow> string" where
  "str_or a b = (if a = [] then b else a)"

text \<open>
  What the JavaScript engine supplies and the repository does not define:
  \<^item> \<open>dateGetTime s\<close> is \<^verbatim>\<open>new Date(s).getTime()\<close>, \<open>None\<close> for \<^verbatim>\<open>NaN\<close> (an invalid date);
  \<^item> \<open>sortTimes\<close> is \<^verbatim>\<open>sort((a, b) => a - b)\<close> on a list of time values that contains a
    \<^verbatim>\<open>NaN\<close>, where the comparator is inconsistent and the order is implementation-defined;
  \<^item> \<open>sortByTime\<close> is the same for records sorted by the time value of their date;
  \<^item> \<open>numberToString\<close> is \<^verbatim>\<open>Number.prototype.toString\<close>;
  \<^item> \<open>changePercent curr prev\<close> is \<^verbatim>\<open>Math.abs((curr - prev) / prev * 100)\<close> in double
    arithmetic, and \<open>toFixed1\<close> is \<^verbatim>\<open>toFixed(1)\<close>;
  \<^item> \<open>dateToISODay s\<close> is \<^verbatim>\<open>new Date(s).toISOString().split('T')[0]\<close>, \<open>None\<close> when
    \<^verbatim>\<open>new Date(s)\<close> is an invalid date.
\<close>

record PriceRecord =
  date :: string
  marketCode :: string
  instrumentCode :: string
  price :: jsnum
  currency :: string
  volume :: "jsnum option"
  sourceUrl :: "string option"
  collectedBy :: "string option"
  metadata :: "(string \<times> string) list option"

record js_engine =
  dateGetTime :: "string \<Rightarrow> int option"
  sortTimes :: "int option list \<Rightarrow> int option list"
  sortByTime :: "PriceRecord list \<Rightarrow> PriceRecord list"
  numberToString :: "jsnum \<Rightarrow> string"
  changePercent :: "jsnum \<Rightarrow> jsnum \<Rightarrow> jsnum"
  toFixed1 :: "jsnum \<Rightarrow> string"
  dateToISODay :: "string \<Rightarrow> string option"

section \<open>The task scheduler (task-scheduler.ts)\<close>

subsection \<open>The CSV wire format\<close>

definition csvHeaders :: "string list" where
  "csvHeaders =
     [''market_code'', ''instrument_code'', ''date'', ''price'', ''price_type'',
      ''currency'', ''unit'', ''volume'', ''source_url'', ''notes'']"

text \<open>The bytes of \<^verbatim>\<open>MCP\<close>, the two CJK characters U+91C7 U+96C6, a colon and a space.\<close>

definition notesPrefix :: string where
  "notesPrefix =
     ''MCP'' @ [CHR 0xE9, CHR 0x87, CHR 0x87, CHR 0xE9, CHR 0x9B, CHR 0x86] @ '': ''"

text \<open>One data row; an undefined \<^verbatim>\<open>collectedBy\<close> prints as \<^verbatim>\<open>undefined\<close> in the template.\<close>

definition csvRow :: "js_engine \<Rightarrow> PriceRecord \<Rightarrow> string list" where
  "csvRow js record =
     [marketCode record,
      instrumentCode record,
      date record,
      numberToString js (price record),
      ''close'',
      currency record,
      ''tCO2e'',
      str_or (case volume record of None \<Rightarrow> [] | Some v \<Rightarrow> numberToString js v) [],
      str_or (case sourceUrl record of None \<Rightarrow> [] | Some u \<Rightarrow> u) [],
      notesPrefix @ (case collectedBy record of None \<Rightarrow> ''undefined'' | Some c \<Rightarrow> c)]"

definition quoteField :: "string \<Rightarrow> string" where
  "quoteField field = [CHR 0x22] @ field @ [CHR 0x22]"

definition convertToCSVFormat :: "js_engine \<Rightarrow> PriceRecord list \<Rightarrow> string" where
  "convertToCSVFormat js records =
     (if records = [] then []
      else joinWith [CHR 0x0A]
             (map (\<lambda>row. joinWith '','' (map quoteField row))
                (csvHeaders # map (csvRow js) records)))"

subsection \<open>Tasks, results and the scheduler state\<close>

text \<open>A promise that settles: resolved with a value, or rejected with an error message.\<close>

datatype 'a outcome = Returns 'a | Throws string

type_synonym evidence = "(string \<times> string) list"

record ValidationResult =
  isValid :: bool
  v_errors :: "string list"
  v_warnings :: "string list"
  qualityScore :: int
  v_recordCount :: nat

text \<open>
  The part of an \<^verbatim>\<open>MCPAdapter\<close> the scheduler reads. \<^verbatim>\<open>collectData\<close> performs network
  I/O; its outcome for one execution is given by \<open>exec_io\<close>.
\<close>

record adapter =
  adapter_name :: string
  adapter_marketCode :: string
  adapter_currency :: string
  validateData :: "PriceRecord list \<Rightarrow> ValidationResult outcome"

record ScheduledTask =
  task_id :: string
  task_adapter :: adapter
  schedule :: string
  lastRun :: "int option"
  nextRun :: "int option"
  enabled :: bool
  retryCount :: nat
  maxRetries :: nat

record TaskExecutionResult =
  taskId :: string
  success :: bool
  recordCount :: nat
  errors :: "string list"
  warnings :: "string list"
  executionTime :: int
  timestamp :: int

text \<open>
  The scheduler's fields (\<open>tasks\<close>, \<open>executionHistory\<close>, \<open>isRunning\<close>) and the effects it
  has on the outside: \<open>timers\<close> are the pending \<^verbatim>\<open>setTimeout\<close> retries (task id and delay
  in milliseconds), \<open>alerts\<close> the calls of \<^verbatim>\<open>sendAlert\<close>, \<open>posted\<close> the CSV bodies sent to
  the import API by \<^verbatim>\<open>submitDataToAPI\<close>.
\<close>

record scheduler =
  tasks :: "string \<rightharpoonup> ScheduledTask"
  executionHistory :: "TaskExecutionResult list"
  isRunning :: bool
  timers :: "(string \<times> nat) list"
  alerts :: "(string \<times> string) list"
  posted :: "string list"

text \<open>
  The environment of one execution: the clock readings, what \<^verbatim>\<open>collectData\<close> settles to,
  and what the import API answers to a CSV body (\<open>None\<close> for a 2xx answer with a JSON
  body, \<open>Some msg\<close> when \<^verbatim>\<open>submitDataToAPI\<close> throws \<open>msg\<close>).
\<close>

record exec_io =
  startClock :: int
  stampClock :: int
  collected :: "(PriceRecord list \<times> evidence) outcome"
  importAnswer :: "string \<Rightarrow> string option"
  runClock :: int
  endClock :: int

subsection \<open>executeTask\<close>

text \<open>\<^verbatim>\<open>submitDataToAPI\<close>: the thrown message if any, and the log of posted bodies.\<close>

definition submitDataToAPI ::
  "js_engine \<Rightarrow> exec_io \<Rightarrow> PriceRecord list \<Rightarrow> evidence \<Rightarrow> string list
     \<Rightarrow> string option \<times> string list" where
  "submitDataToAPI js io records ev sent =
     (let csvData = convertToCSVFormat js records
      in (importAnswer io csvData, sent @ [csvData]))"

text \<open>
  The \<^verbatim>\<open>try\<close> block of \<^verbatim>\<open>executeTask\<close> up to the point where the task is updated: the
  message of the error thrown (\<open>None\<close> when the block runs to its end), the result
  object as mutated so far, and the log of posted bodies.
\<close>

definition tryBlock ::
  "js_engine \<Rightarrow> exec_io \<Rightarrow> adapter \<Rightarrow> TaskExecutionResult \<Rightarrow> string list
     \<Rightarrow> string option \<times> TaskExecutionResult \<times> string list" where
  "tryBlock js io ad result sent =
     (case collected io of
        Throws m \<Rightarrow> (Some m, result, sent)
      | Returns (data, ev) \<Rightarrow>
          (case validateData ad data of
             Throws m \<Rightarrow> (Some m, result, sent)
           | Returns validation \<Rightarrow>
               (let result1 =
                      (if \<not> isValid validation
                       then result\<lparr>errors := errors result @ v_errors validation,
                                   warnings := warnings result @ v_warnings validation\<rparr>
                       else result)
                in if \<not> isValid validation \<and> v_errors validation \<noteq> []
                   then (Some (''Data validation failed: '' @ joinWith '', '' (v_errors validation)),
                         result1, sent)
                   else if data \<noteq> []
                   then (case submitDataToAPI js io data ev sent of
                           (Some m, sent') \<Rightarrow> (Some m, result1, sent')
                         | (None, sent') \<Rightarrow>
                             (None,
                              result1\<lparr>recordCount := length data, success := True,
                                      warnings := warnings result1 @ v_warnings validation\<rparr>,
                              sent'))
                   else (None,
                         result1\<lparr>success := True,
                                 warnings := warnings result1 @ v_warnings validation\<rparr>,
                         sent))))"

text \<open>\<^verbatim>\<open>slice(-500)\<close> on a list: its last 500 entries.\<close>

definition sliceLast :: "nat \<Rightarrow> 'a list \<Rightarrow> 'a list" where
  "sliceLast n xs = drop (length xs - n) xs"

definition initialResult :: "string \<Rightarrow> exec_io \<Rightarrow> TaskExecutionResult" where
  "initialResult tid io =
     \<lparr>taskId = tid, success = False, recordCount = 0, errors = [], warnings = [],
      executionTime = 0, timestamp = stampClock io\<rparr>"

definition executeTask ::
  "js_engine \<Rightarrow> exec_io \<Rightarrow> string \<Rightarrow> scheduler \<Rightarrow> TaskExecutionResult outcome \<times> scheduler" where
  "executeTask js io tid s =
     (case tasks s tid of
        None \<Rightarrow> (Throws (''Task not found: '' @ tid), s)
      | Some task \<Rightarrow>
          (case tryBlock js io (task_adapter task) (initialResult tid io) (posted s) of
             (thrown, result1, sent) \<Rightarrow>
               (let (task', result2, timers', alerts') =
                      (case thrown of
                         None \<Rightarrow>
                           (task\<lparr>retryCount := 0, lastRun := Some (runClock io)\<rparr>,
                            result1, timers s, alerts s)
                       | Some errorMessage \<Rightarrow>
                           (let task1 = task\<lparr>retryCount := retryCount task + 1\<rparr>;
                                result2 = result1\<lparr>errors := errors result1 @ [errorMessage]\<rparr>
                            in if retryCount task1 < maxRetries task1
                               then (task1, result2,
                                     timers s @ [(tid, retryCount task1 * 5 * 60 * 1000)],
                                     alerts s)
                               else (task1, result2, timers s,
                                     alerts s @ [(tid, errorMessage)])));
                    result3 = result2\<lparr>executionTime := endClock io - startClock io\<rparr>;
                    history1 = executionHistory s @ [result3];
                    history2 = (if length history1 > 1000 then sliceLast 500 history1
                                else history1)
                in (Returns result3,
                    s\<lparr>tasks := (tasks s)(tid \<mapsto> task'), executionHistory := history2,
                      timers := timers', alerts := alerts', posted := sent\<rparr>))))"

section \<open>The quality checker (quality-checker.ts)\<close>

subsection \<open>calculateScore\<close>

text \<open>The first test of the loop: \<^verbatim>\<open>!record.date || !record.price || !record.marketCode\<close>.\<close>

definition missingRequired :: "PriceRecord \<Rightarrow> bool" where
  "missingRequired record =
     (date record = [] \<or> num_falsy (price record) \<or> marketCode record = [])"

definition recordDeductions :: "PriceRecord \<Rightarrow> int list" where
  "recordDeductions record =
     (if missingRequired record then [10] else []) @
     (if js_le (price record) (Fin 0) then [15] else [])"

text \<open>
  \<^verbatim>\<open>[...dates].sort((a, b) => a - b)\<close>. The comparator yields \<^verbatim>\<open>NaN\<close> when one side is
  \<^verbatim>\<open>NaN\<close>, which \<^verbatim>\<open>sort\<close> reads as \<open>0\<close>. Without a \<^verbatim>\<open>NaN\<close> the result is the ascending
  list; with a \<^verbatim>\<open>NaN\<close> and at most one distinct number every comparison yields \<open>0\<close> and
  the stable sort changes nothing; otherwise the comparator is inconsistent and the
  result is the engine's.
\<close>

definition sortedTimes :: "js_engine \<Rightarrow> int option list \<Rightarrow> int option list" where
  "sortedTimes js ds =
     (if None \<notin> set ds then map Some (sort (map the ds))
      else if length (remdups (filter (\<lambda>d. d \<noteq> None) ds)) \<le> 1 then ds
      else sortTimes js ds)"

text \<open>The array \<open>deductions\<close> once the three checks have run.\<close>

definition scoreDeductions :: "js_engine \<Rightarrow> PriceRecord list \<Rightarrow> int list" where
  "scoreDeductions js records =
     concat (map recordDeductions records) @
     (if length (remdups (map marketCode records)) > 1 then [20] else []) @
     (let dates = map (\<lambda>r. dateGetTime js (date r)) records
      in if dates \<noteq> sortedTimes js dates then [5] else [])"

definition calculateScore :: "js_engine \<Rightarrow> PriceRecord list \<Rightarrow> int" where
  "calculateScore js records =
     (if records = [] then 0
      else
        (let totalDeduction = min (sum_list (scoreDeductions js records)) 100
         in max 0 (100 - totalDeduction)))"

text \<open>
  A record that the first loop penalises: a required field is missing, or the price is
  not positive.
\<close>

definition defective :: "PriceRecord \<Rightarrow> bool" where
  "defective record = (missingRequired record \<or> js_le (price record) (Fin 0))"

subsection \<open>checkQuality\<close>

record priceRange =
  range_min :: jsnum
  range_max :: jsnum

record QualityCheckOptions =
  expectedPriceRange :: priceRange
  maxPriceChangePercent :: jsnum
  requiredFields :: "string list"

text \<open>
  The result without its \<^verbatim>\<open>score\<close> field (\<^verbatim>\<open>calculateQualityScore\<close>, a ratio computed in
  double arithmetic), which no property below reads.
\<close>

record QualityCheckResult =
  qc_warnings :: "string list"
  passed :: bool

text \<open>Property names every object inherits from \<^verbatim>\<open>Object.prototype\<close>; their values are truthy.\<close>

definition objectPrototypeKeys :: "string list" where
  "objectPrototypeKeys =
     [''constructor'', ''hasOwnProperty'', ''isPrototypeOf'', ''propertyIsEnumerable'',
      ''toLocaleString'', ''toString'', ''valueOf'', ''__defineGetter__'',
      ''__defineSetter__'', ''__lookupGetter__'', ''__lookupSetter__'', ''__proto__'']"

text \<open>\<^verbatim>\<open>!record[field]\<close> for a field name given as a string.\<close>

definition fieldFalsy :: "PriceRecord \<Rightarrow> string \<Rightarrow> bool" where
  "fieldFalsy record field =
     (if field = ''date'' then date record = []
      else if field = ''marketCode'' then marketCode record = []
      else if field = ''instrumentCode'' then instrumentCode record = []
      else if field = ''price'' then num_falsy (price record)
      else if field = ''currency'' then currency record = []
      else if field = ''volume'' then
        (case volume record of None \<Rightarrow> True | Some v \<Rightarrow> num_falsy v)
      else if field = ''sourceUrl'' then
        (case sourceUrl record of None \<Rightarrow> True | Some u \<Rightarrow> u = [])
      else if field = ''collectedBy'' then
        (case collectedBy record of None \<Rightarrow> True | Some c \<Rightarrow> c = [])
      else if field = ''metadata'' then metadata record = None
      else field \<notin> set objectPrototypeKeys)"

definition outsideRange :: "priceRange \<Rightarrow> jsnum \<Rightarrow> bool" where
  "outsideRange rng p = (js_lt p (range_min rng) \<or> js_gt p (range_max rng))"

definition priceRangeWarning :: "js_engine \<Rightarrow> priceRange \<Rightarrow> jsnum \<Rightarrow> string" where
  "priceRangeWarning js rng p =
     ''Price '' @ numberToString js p @ '' outside expected range ('' @
     numberToString js (range_min rng) @ ''-'' @ numberToString js (range_max rng) @ '')''"

definition missingFieldWarnings :: "QualityCheckOptions \<Rightarrow> PriceRecord \<Rightarrow> string list" where
  "missingFieldWarnings options record =
     concat (map (\<lambda>field. if fieldFalsy record field
                            then [''Missing required field: '' @ field] else [])
               (requiredFields options))"

text \<open>The warnings the first loop pushes for one record.\<close>

definition recordWarnings ::
  "js_engine \<Rightarrow> QualityCheckOptions \<Rightarrow> PriceRecord \<Rightarrow> string list" where
  "recordWarnings js options record =
     (if outsideRange (expectedPriceRange options) (price record)
      then [priceRangeWarning js (expectedPriceRange options) (price record)] else []) @
     missingFieldWarnings options record"

text \<open>A price-range warning is a warning that starts with \<^verbatim>\<open>Price\<close> and a space.\<close>

definition isPriceRangeWarning :: "string \<Rightarrow> bool" where
  "isPriceRangeWarning w = (take 6 w = ''Price '')"

text \<open>
  \<^verbatim>\<open>[...records].sort\<close> by the time value of the date: a stable ascending sort when
  every date parses, unchanged when the comparator never tells two records apart, and
  the engine's order when the comparator is inconsistent.
\<close>

definition sortRecordsByDate :: "js_engine \<Rightarrow> PriceRecord list \<Rightarrow> PriceRecord list" where
  "sortRecordsByDate js records =
     (let times = map (\<lambda>r. dateGetTime js (date r)) records
      in if None \<notin> set times then sort_key (\<lambda>r. the (dateGetTime js (date r))) records
         else if length (remdups (filter (\<lambda>d. d \<noteq> None) times)) \<le> 1 then records
         else sortByTime js records)"

definition changeWarning ::
  "js_engine \<Rightarrow> QualityCheckOptions \<Rightarrow> PriceRecord \<Rightarrow> PriceRecord \<Rightarrow> string list" where
  "changeWarning js options prevRec currRec =
     (let pct = changePercent js (price currRec) (price prevRec)
      in if js_gt pct (maxPriceChangePercent options)
         then [''Large price change '' @ toFixed1 js pct @ ''% between '' @
               date prevRec @ '' and '' @ date currRec]
         else [])"

definition changeWarnings ::
  "js_engine \<Rightarrow> QualityCheckOptions \<Rightarrow> PriceRecord list \<Rightarrow> string list" where
  "changeWarnings js options sortedRecords =
     concat (map (\<lambda>(prevRec, currRec). changeWarning js options prevRec currRec)
               (zip sortedRecords (tl sortedRecords)))"

definition checkQuality ::
  "js_engine \<Rightarrow> PriceRecord list \<Rightarrow> QualityCheckOptions \<Rightarrow> QualityCheckResult" where
  "checkQuality js records options =
     (let ws = concat (map (recordWarnings js options) records) @
               changeWarnings js options (sortRecordsByDate js records);
          noneMissing = list_all (\<lambda>r. missingFieldWarnings options r = []) records
      in \<lparr>qc_warnings = ws, passed = (noneMissing \<and> length ws < 5)\<rparr>)"

section \<open>The CARB CSV adapter (carb-csv.ts)\<close>

subsection \<open>validateData\<close>

definition carbMarketCode :: string where
  "carbMarketCode = ''CCA''"

definition carbCurrency :: string where
  "carbCurrency = ''USD''"

definition carbRecordErrors :: "js_engine \<Rightarrow> PriceRecord \<Rightarrow> string list" where
  "carbRecordErrors js record =
     (if marketCode record \<noteq> carbMarketCode
      then [''Invalid market code: '' @ marketCode record] else []) @
     (if currency record \<noteq> carbCurrency
      then [''Invalid currency: '' @ currency record] else []) @
     (if dateGetTime js (date record) = None
      then [''Invalid date: '' @ date record] else [])"

definition carbRecordWarnings :: "js_engine \<Rightarrow> PriceRecord \<Rightarrow> string list" where
  "carbRecordWarnings js record =
     (if js_lt (price record) (Fin 5) \<or> js_gt (price record) (Fin 100)
      then [''Price $'' @ numberToString js (price record) @
            '' outside typical CARB range ($5-100)'']
      else [])"

definition carbOptions :: QualityCheckOptions where
  "carbOptions =
     \<lparr>expectedPriceRange = \<lparr>range_min = Fin 5, range_max = Fin 100\<rparr>,
      maxPriceChangePercent = Fin 20,
      requiredFields = [''date'', ''price'', ''marketCode'', ''instrumentCode'']\<rparr>"

text \<open>
  The validation result without its \<^verbatim>\<open>metadata\<close> (the observed price and date range),
  which the scheduler never reads.
\<close>

definition carbValidateData :: "js_engine \<Rightarrow> PriceRecord list \<Rightarrow> ValidationResult" where
  "carbValidateData js records =
     (let errs = concat (map (carbRecordErrors js) records);
          warns = concat (map (carbRecordWarnings js) records);
          score = calculateScore js records;
          qualityCheck = checkQuality js records carbOptions
      in \<lparr>isValid = (errs = []), v_errors = errs,
          v_warnings = warns @ qc_warnings qualityCheck,
          qualityScore = score, v_recordCount = length records\<rparr>)"

definition CarbCSVAdapter :: "js_engine \<Rightarrow> adapter" where
  "CarbCSVAdapter js =
     \<lparr>adapter_name = ''CARB CSV'', adapter_marketCode = carbMarketCode,
      adapter_currency = carbCurrency,
      validateData = (\<lambda>records. Returns (carbValidateData js records))\<rparr>"

subsection \<open>normalizeDate\<close>

definition isDigit :: "char \<Rightarrow> bool" where
  "isDigit c = (c \<in> set ''0123456789'')"

definition isSep :: "char \<Rightarrow> bool" where
  "isSep c = (c = CHR ''/'' \<or> c = CHR ''-'')"

text \<open>
  \<^verbatim>\<open>dateString.trim().replace(/[^\d\/\-]/g, '')\<close>: every character other than a digit,
  a slash or a hyphen is removed (the white space \<^verbatim>\<open>trim\<close> removes is among them).
\<close>

definition cleanDate :: "string \<Rightarrow> string" where
  "cleanDate dateString = filter (\<lambda>c. isDigit c \<or> isSep c) dateString"

text \<open>The pieces of a string between its separators \<^verbatim>\<open>[\/\-]\<close>.\<close>

fun splitSep :: "string \<Rightarrow> string list" where
  "splitSep [] = [[]]"
| "splitSep (c # cs) =
     (if isSep c then [] # splitSep cs
      else (case splitSep cs of [] \<Rightarrow> [[c]] | f # fs \<Rightarrow> (c # f) # fs))"

text \<open>A group \<^verbatim>\<open>(\d{lo,hi})\<close>.\<close>

definition digitRun :: "nat \<Rightarrow> nat \<Rightarrow> string \<Rightarrow> bool" where
  "digitRun lo hi g = (lo \<le> length g \<and> length g \<le> hi \<and> list_all isDigit g)"

text \<open>
  A match of \<^verbatim>\<open>^(\d{..})[\/\-](\d{..})[\/\-](\d{..})$\<close>: the string has exactly two
  separators and its three pieces are digit groups of the lengths asked for.
\<close>

definition matchGroups ::
  "nat \<times> nat \<Rightarrow> nat \<times> nat \<Rightarrow> nat \<times> nat \<Rightarrow> string \<Rightarrow> (string \<times> string \<times> string) option" where
  "matchGroups b1 b2 b3 s =
     (case splitSep s of
        [g1, g2, g3] \<Rightarrow>
          (if digitRun (fst b1) (snd b1) g1 \<and> digitRun (fst b2) (snd b2) g2 \<and>
              digitRun (fst b3) (snd b3) g3
           then Some (g1, g2, g3) else None)
      | _ \<Rightarrow> None)"

text \<open>The three entries of \<^verbatim>\<open>formats\<close>, by index.\<close>

definition matchFormat :: "nat \<Rightarrow> string \<Rightarrow> (string \<times> string \<times> string) option" where
  "matchFormat k s =
     (if k = 0 then matchGroups (4, 4) (1, 2) (1, 2) s
      else if k = 1 then matchGroups (1, 2) (1, 2) (4, 4) s
      else matchGroups (1, 2) (1, 2) (2, 2) s)"

definition digitVal :: "char \<Rightarrow> nat" where
  "digitVal c = of_char c - 48"

text \<open>\<^verbatim>\<open>parseInt\<close> on a string of decimal digits.\<close>

definition parseInt :: "string \<Rightarrow> nat" where
  "parseInt g = foldl (\<lambda>acc c. 10 * acc + digitVal c) 0 g"

text \<open>\<^verbatim>\<open>toString\<close> on a natural number, and \<^verbatim>\<open>padStart(2, '0')\<close>.\<close>

definition digitChar :: "nat \<Rightarrow> char" where
  "digitChar k = ''0123456789'' ! k"

fun showNat :: "nat \<Rightarrow> string" where
  "showNat n =
     (if n < 10 then [digitChar n]
      else showNat (n div 10) @ [digitChar (n mod 10)])"

definition padStart2 :: "string \<Rightarrow> string" where
  "padStart2 t = replicate (2 - length t) (CHR ''0'') @ t"

definition validYMD :: "nat \<Rightarrow> nat \<Rightarrow> nat \<Rightarrow> bool" where
  "validYMD year month day =
     (month \<ge> 1 \<and> month \<le> 12 \<and> day \<ge> 1 \<and> day \<le> 31 \<and> year \<ge> 2000)"

definition formatYMD :: "nat \<Rightarrow> nat \<Rightarrow> nat \<Rightarrow> string" where
  "formatYMD year month day =
     showNat year @ ''-'' @ padStart2 (showNat month) @ ''-'' @ padStart2 (showNat day)"

text \<open>The body of the loop for the format of index \<open>k\<close>: \<open>None\<close> when the loop goes on.\<close>

definition tryFormat :: "nat \<Rightarrow> string \<Rightarrow> string option" where
  "tryFormat k clean =
     (case matchFormat k clean of
        None \<Rightarrow> None
      | Some (g1, g2, g3) \<Rightarrow>
          (let (year, month, day) =
                 (if k = 0 then (parseInt g1, parseInt g2, parseInt g3)
                  else if k = 1 then (parseInt g3, parseInt g1, parseInt g2)
                  else (let year = parseInt g3
                        in (if year < 50 then 2000 + year else 1900 + year,
                            parseInt g1, parseInt g2)))
           in if validYMD year month day then Some (formatYMD year month day) else None))"

fun firstFormat :: "nat list \<Rightarrow> string \<Rightarrow> string option" where
  "firstFormat [] clean = None"
| "firstFormat (k # ks) clean =
     (case tryFormat k clean of Some r \<Rightarrow> Some r | None \<Rightarrow> firstFormat ks clean)"

definition normalizeDate :: "string \<Rightarrow> string option" where
  "normalizeDate dateString = firstFormat [0, 1, 2] (cleanDate dateString)"

section \<open>The CEA adapter (cea-cneeex.ts)\<close>

subsection \<open>parseDateString\<close>

text \<open>The UTF-8 bytes of the characters U+5E74 (year), U+6708 (month) and U+65E5 (day).\<close>

definition yearChar :: string where
  "yearChar = [CHR 0xE5, CHR 0xB9, CHR 0xB4]"

definition monthChar :: string where
  "monthChar = [CHR 0xE6, CHR 0x9C, CHR 0x88]"

definition dayChar :: string where
  "dayChar = [CHR 0xE6, CHR 0x97, CHR 0xA5]"

text \<open>\<^verbatim>\<open>s.replace(/pat/g, rep)\<close> for a literal, non-empty pattern.\<close>

fun replaceAll :: "string \<Rightarrow> string \<Rightarrow> string \<Rightarrow> string" where
  "replaceAll pat rep [] = []"
| "replaceAll pat rep (c # cs) =
     (if pat \<noteq> [] \<and> take (length pat) (c # cs) = pat
      then rep @ replaceAll pat rep (drop (length pat - 1) cs)
      else c # replaceAll pat rep cs)"

text \<open>\<^verbatim>\<open>/^\d{4}-\d{2}-\d{2}$/.test(s)\<close>.\<close>

definition isoShape :: "string \<Rightarrow> bool" where
  "isoShape s =
     (length s = 10 \<and> list_all isDigit (take 4 s) \<and> s ! 4 = CHR ''-'' \<and>
      list_all isDigit (take 2 (drop 5 s)) \<and> s ! 7 = CHR ''-'' \<and>
      list_all isDigit (drop 8 s))"

definition parseDateString :: "js_engine \<Rightarrow> string \<Rightarrow> string option" where
  "parseDateString js dateStr =
     (let normalized = replaceAll dayChar [] (replaceAll monthChar ''-''
                         (replaceAll yearChar ''-'' dateStr))
      in if isoShape normalized then Some normalized
         else dateToISODay js dateStr)"

subsection \<open>validateData of the CEA adapter\<close>

definition ceaMarketCode :: string where
  "ceaMarketCode = ''CEA''"

definition ceaCurrency :: string where
  "ceaCurrency = ''CNY''"

definition ceaRecordErrors :: "js_engine \<Rightarrow> PriceRecord \<Rightarrow> string list" where
  "ceaRecordErrors js record =
     (if marketCode record \<noteq> ceaMarketCode
      then [''Invalid market code: '' @ marketCode record] else []) @
     (if currency record \<noteq> ceaCurrency
      then [''Invalid currency: '' @ currency record] else []) @
     (if dateGetTime js (date record) = None
      then [''Invalid date: '' @ date record] else [])"

definition ceaRecordWarnings :: "js_engine \<Rightarrow> PriceRecord \<Rightarrow> string list" where
  "ceaRecordWarnings js record =
     (if js_lt (price record) (Fin 20) \<or> js_gt (price record) (Fin 150)
      then [''Price '' @ numberToString js (price record) @
            '' outside typical CEA range (20-150 CNY)'']
      else [])"

definition ceaOptions :: QualityCheckOptions where
  "ceaOptions =
     \<lparr>expectedPriceRange = \<lparr>range_min = Fin 20, range_max = Fin 150\<rparr>,
      maxPriceChangePercent = Fin 15,
      requiredFields = [''date'', ''price'', ''marketCode'', ''instrumentCode'']\<rparr>"

definition ceaValidateData :: "js_engine \<Rightarrow> PriceRecord list \<Rightarrow> ValidationResult" where
  "ceaValidateData js records =
     (let errs = concat (map (ceaRecordErrors js) records);
          warns = concat (map (ceaRecordWarnings js) records);
          score = calculateScore js records;
          qualityCheck = checkQuality js records ceaOptions
      in \<lparr>isValid = (errs = []), v_errors = errs,
          v_warnings = warns @ qc_warnings qualityCheck,
          qualityScore = score, v_recordCount = length records\<rparr>)"

definition CEAAdapter :: "js_engine \<Rightarrow> adapter" where
  "CEAAdapter js =
     \<lparr>adapter_name = ''CEA CNEEEX'', adapter_marketCode = ceaMarketCode,
      adapter_currency = ceaCurrency,
      validateData = (\<lambda>records. Returns (ceaValidateData js records))\<rparr>"

section \<open>The CCER adapter (ccer-official.ts)\<close>

definition ccerMarketCode :: string where
  "ccerMarketCode = ''CCER''"

definition ccerCurrency :: string where
  "ccerCurrency = ''CNY''"

definition ccerRecordErrors :: "js_engine \<Rightarrow> PriceRecord \<Rightarrow> string list" where
  "ccerRecordErrors js record =
     (if marketCode record \<noteq> ccerMarketCode
      then [''Invalid market code: '' @ marketCode record] else []) @
     (if currency record \<noteq> ccerCurrency
      then [''Invalid currency: '' @ currency record] else []) @
     (if dateGetTime js (date record) = None
      then [''Invalid date: '' @ date record] else [])"

text \<open>
  The warnings of one iteration, \<open>now\<close> being what \<^verbatim>\<open>Date.now()\<close> reads there. The age
  \<^verbatim>\<open>(Date.now() - recordDate.getTime()) / (1000 * 60 * 60 * 24)\<close> is \<^verbatim>\<open>NaN\<close> for an invalid
  date, and exceeds 30 exactly when the difference exceeds 30 days in milliseconds.
\<close>

definition ccerRecordWarnings :: "js_engine \<Rightarrow> int \<Rightarrow> PriceRecord \<Rightarrow> string list" where
  "ccerRecordWarnings js now record =
     (if js_lt (price record) (Fin 1) \<or> js_gt (price record) (Fin 200)
      then [''Price '' @ numberToString js (price record) @
            '' outside typical CCER range (1-200 CNY)'']
      else []) @
     (case dateGetTime js (date record) of
        None \<Rightarrow> []
      | Some t \<Rightarrow> if now - t > 30 * (1000 * 60 * 60 * 24)
                  then [''Data older than 30 days: '' @ date record] else [])"

definition ccerOptions :: QualityCheckOptions where
  "ccerOptions =
     \<lparr>expectedPriceRange = \<lparr>range_min = Fin 1, range_max = Fin 200\<rparr>,
      maxPriceChangePercent = Fin 25,
      requiredFields = [''date'', ''price'', ''marketCode'', ''instrumentCode'']\<rparr>"

text \<open>\<open>clock i\<close> is the reading of \<^verbatim>\<open>Date.now()\<close> in the iteration for the record of index \<open>i\<close>.\<close>

definition ccerValidateData ::
  "js_engine \<Rightarrow> (nat \<Rightarrow> int) \<Rightarrow> PriceRecord list \<Rightarrow> ValidationResult" where
  "ccerValidateData js clock records =
     (let errs = concat (map (ccerRecordErrors js) records);
          warns = concat (map (\<lambda>(i, record). ccerRecordWarnings js (clock i) record)
                            (enumerate 0 records));
          score = calculateScore js records;
          qualityCheck = checkQuality js records ccerOptions
      in \<lparr>isValid = (errs = []), v_errors = errs,
          v_warnings = warns @ qc_warnings qualityCheck,
          qualityScore = score, v_recordCount = length records\<rparr>)"

definition CCEROfficialAdapter :: "js_engine \<Rightarrow> (nat \<Rightarrow> int) \<Rightarrow> adapter" where
  "CCEROfficialAdapter js clock =
     \<lparr>adapter_name = ''CCER Official'', adapter_marketCode = ccerMarketCode,
      adapter_currency = ccerCurrency,
      validateData = (\<lambda>records. Returns (ccerValidateData js clock records))\<rparr>"

section \<open>The CDR adapter (cdr-fyi.ts)\<close>

definition cdrMarketCode :: string where
  "cdrMarketCode = ''CDR''"

definition cdrCurrency :: string where
  "cdrCurrency = ''USD''"

definition cdrRecordErrors :: "js_engine \<Rightarrow> PriceRecord \<Rightarrow> string list" where
  "cdrRecordErrors js record =
     (if marketCode record \<noteq> cdrMarketCode
      then [''Invalid market code: '' @ marketCode record] else []) @
     (if currency record \<noteq> cdrCurrency
      then [''Invalid currency: '' @ currency record] else []) @
     (if dateGetTime js (date record) = None
      then [''Invalid date: '' @ date record] else [])"

definition cdrRecordWarnings :: "js_engine \<Rightarrow> PriceRecord \<Rightarrow> string list" where
  "cdrRecordWarnings js record =
     (if js_lt (price record) (Fin 20) \<or> js_gt (price record) (Fin 1000)
      then [''Price $'' @ numberToString js (price record) @
            '' outside typical CDR range ($20-1000)'']
      else [])"

definition cdrOptions :: QualityCheckOptions where
  "cdrOptions =
     \<lparr>expectedPriceRange = \<lparr>range_min = Fin 20, range_max = Fin 1000\<rparr>,
      maxPriceChangePercent = Fin 30,
      requiredFields = [''date'', ''price'', ''marketCode'', ''instrumentCode'']\<rparr>"

definition cdrValidateData :: "js_engine \<Rightarrow> PriceRecord list \<Rightarrow> ValidationResult" where
  "cdrValidateData js records =
     (let errs = concat (map (cdrRecordErrors js) records);
          warns = concat (map (cdrRecordWarnings js) records);
          score = calculateScore js records;
          qualityCheck = checkQuality js records cdrOptions
      in \<lparr>isValid = (errs = []), v_errors = errs,
          v_warnings = warns @ qc_warnings qualityCheck,
          qualityScore = score, v_recordCount = length records\<rparr>)"

definition CDRfyiAdapter :: "js_engine \<Rightarrow> adapter" where
  "CDRfyiAdapter js =
     \<lparr>adapter_name = ''CDR.fyi'', adapter_marketCode = cdrMarketCode,
      adapter_currency = cdrCurrency,
      validateData = (\<lambda>records. Returns (cdrValidateData js records))\<rparr>"

section \<open>The adapters of the scheduler (task-scheduler.ts)\<close>

text \<open>The array \<open>adapters\<close> of \<^verbatim>\<open>initializeAdapters\<close>, one task being created for each.\<close>

definition adapters :: "js_engine \<Rightarrow> (nat \<Rightarrow> int) \<Rightarrow> adapter list" where
  "adapters js clock =
     [CEAAdapter js, CCEROfficialAdapter js clock, CarbCSVAdapter js, CDRfyiAdapter js]"

section \<open>The quality checks of the import pipeline\<close>

datatype market = EU | UK | CCA | CEA | CCER | CDR

fun marketString :: "market \<Rightarrow> string" where
  "marketString EU = ''EU''"
| "marketString UK = ''UK''"
| "marketString CCA = ''CCA''"
| "marketString CEA = ''CEA''"
| "marketString CCER = ''CCER''"
| "marketString CDR = ''CDR''"

datatype priceType = Settlement | Close | Mid

datatype currencyCode = EUR | GBP | USD | CNY

record ParsedRow =
  market_code :: market
  instrument_code :: string
  row_date :: string
  row_price :: jsnum
  price_type :: priceType
  row_currency :: currencyCode
  row_volume :: "jsnum option"
  venue_name :: "string option"
  source_url :: string
  row_notes :: "string option"

text \<open>The key of a row: the template \<^verbatim>\<open>${market_code}-${instrument_code}-${date}\<close>.\<close>

definition rowKey :: "ParsedRow \<Rightarrow> string" where
  "rowKey row = marketString (market_code row) @ ''-'' @ instrument_code row @ ''-'' @ row_date row"

text \<open>The notice pushed for a repeated key: \<^verbatim>\<open>Duplicate entry: ${key}\<close>.\<close>

definition duplicateNotice :: "string \<Rightarrow> string" where
  "duplicateNotice key = ''Duplicate entry: '' @ key"

text \<open>The loop of \<^verbatim>\<open>checkDuplicates\<close>, with the set \<open>seen\<close> and the list \<open>duplicates\<close>.\<close>

fun duplicatesLoop :: "string set \<Rightarrow> string list \<Rightarrow> ParsedRow list \<Rightarrow> string list" where
  "duplicatesLoop seen duplicates [] = duplicates"
| "duplicatesLoop seen duplicates (row # rows) =
     (let key = rowKey row
      in duplicatesLoop (insert key seen)
           (if key \<in> seen then duplicates @ [duplicateNotice key] else duplicates)
           rows)"

definition checkDuplicates :: "ParsedRow list \<Rightarrow> string list" where
  "checkDuplicates rows = duplicatesLoop {} [] rows"

section \<open>Example inputs\<close>

text \<open>
  A stand-in for the engine with a three-day calendar and the decimal printing of
  natural numbers, a CARB record, the task the
  scheduler creates for the CARB adapter, a scheduler that has not run yet, and the
  environments of an execution whose collection fails and of one that works.
\<close>

definition testEngine :: js_engine where
  "testEngine =
     \<lparr>dateGetTime = (\<lambda>s. if s = ''2024-01-10'' then Some 1704844800000
                          else if s = ''2024-01-11'' then Some 1704931200000
                          else if s = ''2024-01-12'' then Some 1705017600000
                          else None),
      sortTimes = (\<lambda>ds. ds),
      sortByTime = (\<lambda>rs. rs),
      numberToString = (\<lambda>x. case x of
                          NaN \<Rightarrow> ''NaN'' | NegInf \<Rightarrow> ''-Infinity'' | PosInf \<Rightarrow> ''Infinity''
                        | Fin r \<Rightarrow> if 0 \<le> r \<and> r = real_of_int \<lfloor>r\<rfloor>
                                  then showNat (nat \<lfloor>r\<rfloor>) else ''?''),
      changePercent = (\<lambda>c p. case (c, p) of
                          (Fin a, Fin b) \<Rightarrow> if b = 0 then NaN else Fin (\<bar>(a - b) / b * 100\<bar>)
                        | _ \<Rightarrow> NaN),
      toFixed1 = (\<lambda>x. ''0.0''),
      dateToISODay = (\<lambda>s. None)\<rparr>"

definition ccaRecord :: PriceRecord where
  "ccaRecord =
     \<lparr>date = ''2024-01-10'', marketCode = ''CCA'', instrumentCode = ''CCA'', price = Fin 30,
      currency = ''USD'', volume = None, sourceUrl = Some ''https://ww2.arb.ca.gov'',
      collectedBy = Some ''MCP:CARB CSV'', metadata = Some [(''source'', ''CARB'')]\<rparr>"

definition undatedRecord :: PriceRecord where
  "undatedRecord = ccaRecord\<lparr>date := []\<rparr>"

definition freeRecord :: PriceRecord where
  "freeRecord = ccaRecord\<lparr>price := Fin 0\<rparr>"

definition ceaRow :: ParsedRow where
  "ceaRow =
     \<lparr>market_code = CEA, instrument_code = ''CEA'', row_date = ''2024-01-15'',
      row_price = Fin 80, price_type = Close, row_currency = CNY, row_volume = None,
      venue_name = None, source_url = ''http://www.cneeex.com'', row_notes = None\<rparr>"

definition euRecord :: PriceRecord where
  "euRecord = ccaRecord\<lparr>marketCode := ''EU''\<rparr>"

definition tenDollarRecord :: PriceRecord where
  "tenDollarRecord = ccaRecord\<lparr>price := Fin 10\<rparr>"

text \<open>Options whose range has its bounds the wrong way round.\<close>

definition invertedOptions :: QualityCheckOptions where
  "invertedOptions =
     \<lparr>expectedPriceRange = \<lparr>range_min = Fin 10, range_max = Fin 5\<rparr>,
      maxPriceChangePercent = Fin 20, requiredFields = [''date'', ''price'']\<rparr>"

definition ccaTask :: ScheduledTask where
  "ccaTask =
     \<lparr>task_id = ''cca-daily'', task_adapter = CarbCSVAdapter testEngine,
      schedule = ''0 23 * * 1-5'', lastRun = None, nextRun = None, enabled = True,
      retryCount = 0, maxRetries = 3\<rparr>"

definition freshScheduler :: scheduler where
  "freshScheduler =
     \<lparr>tasks = [''cca-daily'' \<mapsto> ccaTask], executionHistory = [], isRunning = False,
      timers = [], alerts = [], posted = []\<rparr>"

definition failingIO :: exec_io where
  "failingIO =
     \<lparr>startClock = 1000, stampClock = 1001, collected = Throws ''fetch failed'',
      importAnswer = (\<lambda>csv. None), runClock = 1500, endClock = 2000\<rparr>"

definition workingIO :: exec_io where
  "workingIO =
     \<lparr>startClock = 1000, stampClock = 1001, collected = Returns ([ccaRecord], []),
      importAnswer = (\<lambda>csv. None), runClock = 1500, endClock = 2000\<rparr>"

definition yuanRecord :: PriceRecord where
  "yuanRecord = ccaRecord\<lparr>currency := ''CNY''\<rparr>"

text \<open>
  An execution whose collection returns a record labelled with the market EU and a
  record priced in CNY.
\<close>

definition mislabelledIO :: exec_io where
  "mislabelledIO = workingIO\<lparr>collected := Returns ([euRecord, yuanRecord], [])\<rparr>"

text \<open>Two rows that differ in instrument code and date and have the same key.\<close>

definition longCodeRow :: ParsedRow where
  "longCodeRow = ceaRow\<lparr>instrument_code := ''A-2024'', row_date := ''01''\<rparr>"

definition shortCodeRow :: ParsedRow where
  "shortCodeRow = ceaRow\<lparr>instrument_code := ''A'', row_date := ''2024-01''\<rparr>"

text \<open>A scheduler whose history is full: 1000 past results, stamped 1 to 1000.\<close>

definition pastResult :: "nat \<Rightarrow> TaskExecutionResult" where
  "pastResult i =
     \<lparr>taskId = ''cca-daily'', success = True, recordCount = 1, errors = [], warnings = [],
      executionTime = 1000, timestamp = int i\<rparr>"

definition fullScheduler :: scheduler where
  "fullScheduler = freshScheduler\<lparr>executionHistory := map pastResult [1..<1001]\<rparr>"

section \<open>Properties of the scheduler\<close>

lemma tryBlock_success:
  "tryBlock js io ad (initialResult tid io) lg = (thrown, r1, lg') \<Longrightarrow> success r1 = (thrown = None)"
  by (auto simp: tryBlock_def initialResult_def submitDataToAPI_def Let_def
           split: outcome.splits prod.splits option.splits if_splits)

lemma executeTask_thrown:
  assumes "tasks s tid = Some task"
    and "tryBlock js io (task_adapter task) (initialResult tid io) (posted s) = (Some msg, r1, lg)"
  shows "executeTask js io tid s =
           (Returns (r1\<lparr>errors := errors r1 @ [msg], executionTime := endClock io - startClock io\<rparr>),
            s\<lparr>tasks := (tasks s)(tid \<mapsto> task\<lparr>retryCount := retryCount task + 1\<rparr>),
              executionHistory :=
                (if length (executionHistory s) + 1 > 1000
                 then sliceLast 500 (executionHistory s @
                        [r1\<lparr>errors := errors r1 @ [msg], executionTime := endClock io - startClock io\<rparr>])
                 else executionHistory s @
                        [r1\<lparr>errors := errors r1 @ [msg], executionTime := endClock io - startClock io\<rparr>]),
              timers := (if retryCount task + 1 < maxRetries task
                         then timers s @ [(tid, (retryCount task + 1) * 5 * 60 * 1000)] else timers s),
              alerts := (if retryCount task + 1 < maxRetries task
                         then alerts s else alerts s @ [(tid, msg)]),
              posted := lg\<rparr>)"
  using assms by (simp add: executeTask_def Let_def)

lemma executeTask_completed:
  assumes "tasks s tid = Some task"
    and "tryBlock js io (task_adapter task) (initialResult tid io) (posted s) = (None, r1, lg)"
  shows "executeTask js io tid s =
           (Returns (r1\<lparr>executionTime := endClock io - startClock io\<rparr>),
            s\<lparr>tasks := (tasks s)(tid \<mapsto> task\<lparr>retryCount := 0, lastRun := Some (runClock io)\<rparr>),
              executionHistory :=
                (if length (executionHistory s) + 1 > 1000
                 then sliceLast 500 (executionHistory s @ [r1\<lparr>executionTime := endClock io - startClock io\<rparr>])
                 else executionHistory s @ [r1\<lparr>executionTime := endClock io - startClock io\<rparr>]),
              timers := timers s, alerts := alerts s, posted := lg\<rparr>)"
  using assms by (simp add: executeTask_def Let_def)

text \<open>One step of the retry policy, for a task that exists.\<close>

lemma executeTask_step:
  assumes "tasks s tid = Some task"
  shows "\<exists>r s' task'. executeTask js io tid s = (Returns r, s') \<and> tasks s' tid = Some task' \<and>
           maxRetries task' = maxRetries task \<and>
           (if success r
            then retryCount task' = 0 \<and> timers s' = timers s \<and> alerts s' = alerts s
            else retryCount task' = retryCount task + 1 \<and>
                 (if retryCount task' < maxRetries task
                  then timers s' = timers s @ [(tid, retryCount task' * (5 * 60 * 1000))] \<and>
                       alerts s' = alerts s
                  else timers s' = timers s \<and> (\<exists>msg. alerts s' = alerts s @ [(tid, msg)])))"
proof -
  obtain thrown r1 lg where tb:
    "tryBlock js io (task_adapter task) (initialResult tid io) (posted s) = (thrown, r1, lg)"
    by (cases "tryBlock js io (task_adapter task) (initialResult tid io) (posted s)") auto
  have suc: "success r1 = (thrown = None)" by (rule tryBlock_success [OF tb])
  show ?thesis
  proof (cases thrown)
    case None
    with tb suc show ?thesis
      by (simp add: executeTask_completed [OF assms, of js io r1 lg])
  next
    case (Some msg)
    with tb suc show ?thesis
      by (simp add: executeTask_thrown [OF assms, of js io msg r1 lg])
  qed
qed

text \<open>
  Claim C4. For a task id that is not in the task map, \<open>executeTask\<close> throws
  \<^verbatim>\<open>Task not found: <id>\<close> at once and returns the scheduler exactly as it was: nothing is
  appended to the execution history, no task (its \<open>retryCount\<close>, \<open>lastRun\<close> or \<open>enabled\<close>
  flag) is modified, and no retry timer or alert is added.
\<close>

theorem executeTask_unknown_task:
  assumes "tasks s tid = None"
  shows "executeTask js io tid s = (Throws (''Task not found: '' @ tid), s)"
  using assms by (simp add: executeTask_def)

theorem executeTask_unknown_task_witness:
  "tasks freshScheduler ''eu-daily'' = None \<and>
   executeTask testEngine workingIO ''eu-daily'' freshScheduler =
     (Throws ''Task not found: eu-daily'', freshScheduler)"
proof -
  have h: "tasks freshScheduler ''eu-daily'' = None"
    by (simp add: freshScheduler_def)
  show ?thesis
    using h executeTask_unknown_task [OF h, of testEngine workingIO] by simp
qed

lemma executeTask_task_update:
  assumes "tasks s tid = Some task" and "executeTask js io tid s = (Returns r, s')"
  shows "tasks s' = (tasks s)(tid \<mapsto>
           (if success r then task\<lparr>retryCount := 0, lastRun := Some (runClock io)\<rparr>
            else task\<lparr>retryCount := retryCount task + 1\<rparr>))"
proof -
  obtain thrown r1 lg where tb:
    "tryBlock js io (task_adapter task) (initialResult tid io) (posted s) = (thrown, r1, lg)"
    by (cases "tryBlock js io (task_adapter task) (initialResult tid io) (posted s)") auto
  have suc: "success r1 = (thrown = None)" by (rule tryBlock_success [OF tb])
  show ?thesis
  proof (cases thrown)
    case None
    with tb suc assms(2) show ?thesis
      by (auto simp add: executeTask_completed [OF assms(1), of js io r1 lg])
  next
    case (Some msg)
    with tb suc assms(2) show ?thesis
      by (auto simp add: executeTask_thrown [OF assms(1), of js io msg r1 lg])
  qed
qed

lemma executeTask_effects:
  assumes "tasks s tid = Some task" and "executeTask js io tid s = (Returns r, s')"
  shows "success r \<Longrightarrow> timers s' = timers s \<and> alerts s' = alerts s"
    and "\<not> success r \<Longrightarrow> retryCount task + 1 < maxRetries task \<Longrightarrow>
           timers s' = timers s @ [(tid, (retryCount task + 1) * (5 * 60 * 1000))] \<and>
           alerts s' = alerts s"
    and "\<not> success r \<Longrightarrow> \<not> retryCount task + 1 < maxRetries task \<Longrightarrow>
           timers s' = timers s \<and> (\<exists>msg. alerts s' = alerts s @ [(tid, msg)])"
proof -
  obtain thrown r1 lg where tb:
    "tryBlock js io (task_adapter task) (initialResult tid io) (posted s) = (thrown, r1, lg)"
    by (cases "tryBlock js io (task_adapter task) (initialResult tid io) (posted s)") auto
  have suc: "success r1 = (thrown = None)" by (rule tryBlock_success [OF tb])
  show "success r \<Longrightarrow> timers s' = timers s \<and> alerts s' = alerts s"
    using tb suc assms(2)
    by (cases thrown)
       (auto simp add: executeTask_completed [OF assms(1), of js io r1 lg]
                       executeTask_thrown [OF assms(1), of js io _ r1 lg])
  show "\<not> success r \<Longrightarrow> retryCount task + 1 < maxRetries task \<Longrightarrow>
           timers s' = timers s @ [(tid, (retryCount task + 1) * (5 * 60 * 1000))] \<and>
           alerts s' = alerts s"
    using tb suc assms(2)
    by (cases thrown)
       (auto simp add: executeTask_completed [OF assms(1), of js io r1 lg]
                       executeTask_thrown [OF assms(1), of js io _ r1 lg])
  show "\<not> success r \<Longrightarrow> \<not> retryCount task + 1 < maxRetries task \<Longrightarrow>
           timers s' = timers s \<and> (\<exists>msg. alerts s' = alerts s @ [(tid, msg)])"
    using tb suc assms(2)
    by (cases thrown)
       (auto simp add: executeTask_completed [OF assms(1), of js io r1 lg]
                       executeTask_thrown [OF assms(1), of js io _ r1 lg])
qed

lemma executeTask_returns:
  assumes "tasks s tid = Some task"
  shows "\<exists>r s'. executeTask js io tid s = (Returns r, s')"
  using executeTask_step [OF assms, of js io] by blast

lemma executeTask_history:
  assumes "tasks s tid = Some task" and "executeTask js io tid s = (Returns r, s')"
  shows "executionHistory s' =
           (if length (executionHistory s) + 1 > 1000
            then sliceLast 500 (executionHistory s @ [r]) else executionHistory s @ [r])"
proof -
  obtain thrown r1 lg where tb:
    "tryBlock js io (task_adapter task) (initialResult tid io) (posted s) = (thrown, r1, lg)"
    by (cases "tryBlock js io (task_adapter task) (initialResult tid io) (posted s)") auto
  show ?thesis
    using tb assms(2)
    by (cases thrown)
       (auto simp add: executeTask_completed [OF assms(1), of js io r1 lg]
                       executeTask_thrown [OF assms(1), of js io _ r1 lg])
qed

lemma executeTask_collect_throws:
  assumes "tasks s tid = Some task" and "collected io = Throws m"
    and "executeTask js io tid s = (Returns r, s')"
  shows "\<not> success r"
proof -
  have tb: "tryBlock js io (task_adapter task) (initialResult tid io) (posted s)
              = (Some m, initialResult tid io, posted s)"
    using assms(2) by (simp add: tryBlock_def)
  show ?thesis
    using assms(3) by (auto simp add: executeTask_thrown [OF assms(1) tb] initialResult_def)
qed

lemma executeTask_clean_run:
  assumes "tasks s tid = Some task" and "collected io = Returns (data, ev)"
    and "validateData (task_adapter task) data = Returns v" and "v_errors v = []"
    and "importAnswer io (convertToCSVFormat js data) = None"
    and "executeTask js io tid s = (Returns r, s')"
  shows "success r"
proof -
  obtain thrown r1 lg where tb:
    "tryBlock js io (task_adapter task) (initialResult tid io) (posted s) = (thrown, r1, lg)"
    by (cases "tryBlock js io (task_adapter task) (initialResult tid io) (posted s)") auto
  have "thrown = None"
    using tb assms(2-5)
    by (auto simp add: tryBlock_def submitDataToAPI_def Let_def split: if_splits)
  with tb assms(6) tryBlock_success [OF tb] show ?thesis
    by (auto simp add: executeTask_completed [OF assms(1), of js io r1 lg])
qed

text \<open>
  Claim C1. For a task with \<open>maxRetries = 3\<close>: an execution that fails (its result has
  \<open>success = False\<close>) increments \<open>retryCount\<close>; if the new count is below 3 a retry
  timer with delay \<open>retryCount \<times> 5\<close> minutes (in milliseconds) is added and no alert is
  sent, otherwise one alert is sent and no timer is added; an execution that succeeds
  resets \<open>retryCount\<close> to 0. Hence three failures in a row take \<open>retryCount\<close> from 0 to
  1, 2 and 3, with retries after 5 and 10 minutes and an alert at the third failure,
  and a success after them resets the count to 0.
\<close>

theorem executeTask_retry_policy:
  assumes "tasks s tid = Some task" and "maxRetries task = 3"
  shows "(\<exists>r s' task'. executeTask js io tid s = (Returns r, s') \<and>
            tasks s' tid = Some task' \<and> maxRetries task' = 3 \<and>
            (if success r
             then retryCount task' = 0 \<and> timers s' = timers s \<and> alerts s' = alerts s
             else retryCount task' = retryCount task + 1 \<and>
                  (if retryCount task' < 3
                   then timers s' = timers s @ [(tid, retryCount task' * (5 * 60 * 1000))] \<and>
                        alerts s' = alerts s
                   else timers s' = timers s \<and>
                        (\<exists>msg. alerts s' = alerts s @ [(tid, msg)])))) \<and>
         (\<forall>io1 io2 io3 io4 r1 r2 r3 r4 s1 s2 s3 s4.
            retryCount task = 0 \<and>
            executeTask js io1 tid s = (Returns r1, s1) \<and> \<not> success r1 \<and>
            executeTask js io2 tid s1 = (Returns r2, s2) \<and> \<not> success r2 \<and>
            executeTask js io3 tid s2 = (Returns r3, s3) \<and> \<not> success r3 \<and>
            executeTask js io4 tid s3 = (Returns r4, s4) \<and> success r4 \<longrightarrow>
            map (\<lambda>x. map_option retryCount (tasks x tid)) [s1, s2, s3, s4]
              = [Some 1, Some 2, Some 3, Some 0] \<and>
            timers s1 = timers s @ [(tid, 5 * 60 * 1000)] \<and> alerts s1 = alerts s \<and>
            timers s2 = timers s1 @ [(tid, 2 * (5 * 60 * 1000))] \<and> alerts s2 = alerts s \<and>
            timers s3 = timers s2 \<and> (\<exists>msg. alerts s3 = alerts s @ [(tid, msg)]) \<and>
            timers s4 = timers s3 \<and> alerts s4 = alerts s3)"
proof -
  have step: "\<exists>r s' task'. executeTask js io tid s = (Returns r, s') \<and>
            tasks s' tid = Some task' \<and> maxRetries task' = 3 \<and>
            (if success r
             then retryCount task' = 0 \<and> timers s' = timers s \<and> alerts s' = alerts s
             else retryCount task' = retryCount task + 1 \<and>
                  (if retryCount task' < 3
                   then timers s' = timers s @ [(tid, retryCount task' * (5 * 60 * 1000))] \<and>
                        alerts s' = alerts s
                   else timers s' = timers s \<and>
                        (\<exists>msg. alerts s' = alerts s @ [(tid, msg)])))"
    using executeTask_step [OF assms(1), of js io] unfolding assms(2) .
  have run: "\<forall>io1 io2 io3 io4 r1 r2 r3 r4 s1 s2 s3 s4.
            retryCount task = 0 \<and>
            executeTask js io1 tid s = (Returns r1, s1) \<and> \<not> success r1 \<and>
            executeTask js io2 tid s1 = (Returns r2, s2) \<and> \<not> success r2 \<and>
            executeTask js io3 tid s2 = (Returns r3, s3) \<and> \<not> success r3 \<and>
            executeTask js io4 tid s3 = (Returns r4, s4) \<and> success r4 \<longrightarrow>
            map (\<lambda>x. map_option retryCount (tasks x tid)) [s1, s2, s3, s4]
              = [Some 1, Some 2, Some 3, Some 0] \<and>
            timers s1 = timers s @ [(tid, 5 * 60 * 1000)] \<and> alerts s1 = alerts s \<and>
            timers s2 = timers s1 @ [(tid, 2 * (5 * 60 * 1000))] \<and> alerts s2 = alerts s \<and>
            timers s3 = timers s2 \<and> (\<exists>msg. alerts s3 = alerts s @ [(tid, msg)]) \<and>
            timers s4 = timers s3 \<and> alerts s4 = alerts s3"
  proof (intro allI impI)
    fix io1 io2 io3 io4 r1 r2 r3 r4 s1 s2 s3 s4
    assume h: "retryCount task = 0 \<and>
            executeTask js io1 tid s = (Returns r1, s1) \<and> \<not> success r1 \<and>
            executeTask js io2 tid s1 = (Returns r2, s2) \<and> \<not> success r2 \<and>
            executeTask js io3 tid s2 = (Returns r3, s3) \<and> \<not> success r3 \<and>
            executeTask js io4 tid s3 = (Returns r4, s4) \<and> success r4"
    define t1 where "t1 = task\<lparr>retryCount := 1\<rparr>"
    define t2 where "t2 = task\<lparr>retryCount := 2\<rparr>"
    define t3 where "t3 = task\<lparr>retryCount := 3\<rparr>"
    have k1: "tasks s1 tid = Some t1"
      using executeTask_task_update [OF assms(1), of js io1 r1 s1] h by (simp add: t1_def)
    have k2: "tasks s2 tid = Some t2"
      using executeTask_task_update [OF k1, of js io2 r2 s2] h by (simp add: t1_def t2_def)
    have k3: "tasks s3 tid = Some t3"
      using executeTask_task_update [OF k2, of js io3 r3 s3] h by (simp add: t2_def t3_def)
    have k4: "map_option retryCount (tasks s4 tid) = Some 0"
      using executeTask_task_update [OF k3, of js io4 r4 s4] h by simp
    have e1: "timers s1 = timers s @ [(tid, 5 * 60 * 1000)] \<and> alerts s1 = alerts s"
      using executeTask_effects(2) [OF assms(1), of js io1 r1 s1] h assms(2) by simp
    have e2: "timers s2 = timers s1 @ [(tid, 2 * (5 * 60 * 1000))] \<and> alerts s2 = alerts s1"
      using executeTask_effects(2) [OF k1, of js io2 r2 s2] h assms(2) by (simp add: t1_def)
    have e3: "timers s3 = timers s2 \<and> (\<exists>msg. alerts s3 = alerts s2 @ [(tid, msg)])"
      using executeTask_effects(3) [OF k2, of js io3 r3 s3] h assms(2) by (simp add: t2_def)
    have e4: "timers s4 = timers s3 \<and> alerts s4 = alerts s3"
      using executeTask_effects(1) [OF k3, of js io4 r4 s4] h by simp
    show "map (\<lambda>x. map_option retryCount (tasks x tid)) [s1, s2, s3, s4]
              = [Some 1, Some 2, Some 3, Some 0] \<and>
            timers s1 = timers s @ [(tid, 5 * 60 * 1000)] \<and> alerts s1 = alerts s \<and>
            timers s2 = timers s1 @ [(tid, 2 * (5 * 60 * 1000))] \<and> alerts s2 = alerts s \<and>
            timers s3 = timers s2 \<and> (\<exists>msg. alerts s3 = alerts s @ [(tid, msg)]) \<and>
            timers s4 = timers s3 \<and> alerts s4 = alerts s3"
      using k1 k2 k3 k4 e1 e2 e3 e4 by (simp add: t1_def t2_def t3_def)
  qed
  from step run show ?thesis by (rule conjI)
qed

text \<open>
  Claim C2, as amended. When the history holds exactly 1000 entries, the execution
  appends its result and trims the list to its last 500 entries: entries 502 to 1001
  of the 1001 survive (the result itself being the last), entries 1 to 501 are dropped.
\<close>

theorem executeTask_history_trim:
  assumes "tasks s tid = Some task" and "length (executionHistory s) = 1000"
  shows "\<exists>r s'. executeTask js io tid s = (Returns r, s') \<and>
           executionHistory s' = drop 501 (executionHistory s) @ [r] \<and>
           length (executionHistory s') = 500 \<and>
           (\<forall>i<500. executionHistory s' ! i = (executionHistory s @ [r]) ! (501 + i))"
proof -
  obtain r s' where ex: "executeTask js io tid s = (Returns r, s')"
    using executeTask_returns [OF assms(1), of js io] by blast
  have h: "executionHistory s' = drop 501 (executionHistory s) @ [r]"
    using executeTask_history [OF assms(1) ex] assms(2) by (simp add: sliceLast_def)
  have l: "length (executionHistory s') = 500"
    using h assms(2) by simp
  have n: "\<forall>i<500. executionHistory s' ! i = (executionHistory s @ [r]) ! (501 + i)"
  proof (intro allI impI)
    fix i :: nat
    assume "i < 500"
    have "drop 501 (executionHistory s @ [r]) = executionHistory s'"
      using h assms(2) by simp
    then have "executionHistory s' ! i = drop 501 (executionHistory s @ [r]) ! i"
      by simp
    also have "\<dots> = (executionHistory s @ [r]) ! (501 + i)"
      using assms(2) by (subst nth_drop) simp_all
    finally show "executionHistory s' ! i = (executionHistory s @ [r]) ! (501 + i)" .
  qed
  from ex h l n show ?thesis by blast
qed


lemma executeTask_result_stamp:
  assumes "tasks s tid = Some task" and "executeTask js io tid s = (Returns r, s')"
  shows "timestamp r = stampClock io \<and> taskId r = tid"
proof -
  obtain thrown r1 lg where tb:
    "tryBlock js io (task_adapter task) (initialResult tid io) (posted s) = (thrown, r1, lg)"
    by (cases "tryBlock js io (task_adapter task) (initialResult tid io) (posted s)") auto
  have "timestamp r1 = stampClock io \<and> taskId r1 = tid"
    using tb
    by (auto simp: tryBlock_def initialResult_def submitDataToAPI_def Let_def
             split: outcome.splits prod.splits option.splits if_splits)
  then show ?thesis
    using tb assms(2)
    by (cases thrown)
       (auto simp add: executeTask_completed [OF assms(1), of js io r1 lg]
                       executeTask_thrown [OF assms(1), of js io _ r1 lg])
qed

lemma fullScheduler_task: "tasks fullScheduler ''cca-daily'' = Some ccaTask"
  by (simp add: fullScheduler_def freshScheduler_def)

lemma fullScheduler_history: "executionHistory fullScheduler = map pastResult [1..<1001]"
  by (simp add: fullScheduler_def del: upt_rec_numeral)

theorem executeTask_retry_policy_witness:
  "tasks freshScheduler ''cca-daily'' = Some ccaTask \<and> maxRetries ccaTask = 3 \<and>
   retryCount ccaTask = 0 \<and>
   (\<exists>r1 r2 r3 r4 s1 s2 s3 s4.
      executeTask testEngine failingIO ''cca-daily'' freshScheduler = (Returns r1, s1) \<and>
      \<not> success r1 \<and>
      executeTask testEngine failingIO ''cca-daily'' s1 = (Returns r2, s2) \<and> \<not> success r2 \<and>
      executeTask testEngine failingIO ''cca-daily'' s2 = (Returns r3, s3) \<and> \<not> success r3 \<and>
      executeTask testEngine workingIO ''cca-daily'' s3 = (Returns r4, s4) \<and> success r4 \<and>
      map (\<lambda>x. map_option retryCount (tasks x ''cca-daily'')) [s1, s2, s3, s4]
        = [Some 1, Some 2, Some 3, Some 0] \<and>
      timers s4 = [(''cca-daily'', 300000), (''cca-daily'', 600000)] \<and>
      (\<exists>msg. alerts s4 = [(''cca-daily'', msg)]))"
proof -
  have h1: "tasks freshScheduler ''cca-daily'' = Some ccaTask"
    by (simp add: freshScheduler_def)
  have h2: "maxRetries ccaTask = 3" and h3: "retryCount ccaTask = 0"
    by (simp_all add: ccaTask_def)
  have thr: "collected failingIO = Throws ''fetch failed''"
    by (simp add: failingIO_def)
  obtain r1 s1 where x1:
    "executeTask testEngine failingIO ''cca-daily'' freshScheduler = (Returns r1, s1)"
    using executeTask_returns [OF h1] by blast
  have f1: "\<not> success r1" by (rule executeTask_collect_throws [OF h1 thr x1])
  have k1: "tasks s1 ''cca-daily'' = Some (ccaTask\<lparr>retryCount := 1\<rparr>)"
    using executeTask_task_update [OF h1 x1] f1 h3 by simp
  obtain r2 s2 where x2: "executeTask testEngine failingIO ''cca-daily'' s1 = (Returns r2, s2)"
    using executeTask_returns [OF k1] by blast
  have f2: "\<not> success r2" by (rule executeTask_collect_throws [OF k1 thr x2])
  have k2: "tasks s2 ''cca-daily'' = Some (ccaTask\<lparr>retryCount := 2\<rparr>)"
    using executeTask_task_update [OF k1 x2] f2 by simp
  obtain r3 s3 where x3: "executeTask testEngine failingIO ''cca-daily'' s2 = (Returns r3, s3)"
    using executeTask_returns [OF k2] by blast
  have f3: "\<not> success r3" by (rule executeTask_collect_throws [OF k2 thr x3])
  have k3: "tasks s3 ''cca-daily'' = Some (ccaTask\<lparr>retryCount := 3\<rparr>)"
    using executeTask_task_update [OF k2 x3] f3 by simp
  obtain r4 s4 where x4: "executeTask testEngine workingIO ''cca-daily'' s3 = (Returns r4, s4)"
    using executeTask_returns [OF k3] by blast
  have c1: "collected workingIO = Returns ([ccaRecord], [])"
    by (simp add: workingIO_def)
  have c2: "validateData (task_adapter (ccaTask\<lparr>retryCount := 3\<rparr>)) [ccaRecord]
              = Returns (carbValidateData testEngine [ccaRecord])"
    by (simp add: ccaTask_def CarbCSVAdapter_def)
  have c3: "v_errors (carbValidateData testEngine [ccaRecord]) = []"
    by (simp add: carbValidateData_def carbRecordErrors_def ccaRecord_def testEngine_def
                  carbMarketCode_def carbCurrency_def Let_def)
  have c4: "importAnswer workingIO (convertToCSVFormat testEngine [ccaRecord]) = None"
    by (simp add: workingIO_def)
  have f4: "success r4" by (rule executeTask_clean_run [OF k3 c1 c2 c3 c4 x4])
  have t0: "timers freshScheduler = []" and a0: "alerts freshScheduler = []"
    by (simp_all add: freshScheduler_def)
  have "map (\<lambda>x. map_option retryCount (tasks x ''cca-daily'')) [s1, s2, s3, s4]
          = [Some 1, Some 2, Some 3, Some 0] \<and>
        timers s4 = [(''cca-daily'', 300000), (''cca-daily'', 600000)] \<and>
        (\<exists>msg. alerts s4 = [(''cca-daily'', msg)])"
    using conjunct2 [OF executeTask_retry_policy [OF h1 h2, of testEngine failingIO]]
      h3 x1 f1 x2 f2 x3 f3 x4 f4 t0 a0
    by (auto simp del: map_option_eq_Some)
  with x1 f1 x2 f2 x3 f3 x4 f4
  have "executeTask testEngine failingIO ''cca-daily'' freshScheduler = (Returns r1, s1) \<and>
      \<not> success r1 \<and>
      executeTask testEngine failingIO ''cca-daily'' s1 = (Returns r2, s2) \<and> \<not> success r2 \<and>
      executeTask testEngine failingIO ''cca-daily'' s2 = (Returns r3, s3) \<and> \<not> success r3 \<and>
      executeTask testEngine workingIO ''cca-daily'' s3 = (Returns r4, s4) \<and> success r4 \<and>
      map (\<lambda>x. map_option retryCount (tasks x ''cca-daily'')) [s1, s2, s3, s4]
        = [Some 1, Some 2, Some 3, Some 0] \<and>
      timers s4 = [(''cca-daily'', 300000), (''cca-daily'', 600000)] \<and>
      (\<exists>msg. alerts s4 = [(''cca-daily'', msg)])"
    by (elim conjE) (intro conjI)
  then have "\<exists>r1 r2 r3 r4 s1 s2 s3 s4.
      executeTask testEngine failingIO ''cca-daily'' freshScheduler = (Returns r1, s1) \<and>
      \<not> success r1 \<and>
      executeTask testEngine failingIO ''cca-daily'' s1 = (Returns r2, s2) \<and> \<not> success r2 \<and>
      executeTask testEngine failingIO ''cca-daily'' s2 = (Returns r3, s3) \<and> \<not> success r3 \<and>
      executeTask testEngine workingIO ''cca-daily'' s3 = (Returns r4, s4) \<and> success r4 \<and>
      map (\<lambda>x. map_option retryCount (tasks x ''cca-daily'')) [s1, s2, s3, s4]
        = [Some 1, Some 2, Some 3, Some 0] \<and>
      timers s4 = [(''cca-daily'', 300000), (''cca-daily'', 600000)] \<and>
      (\<exists>msg. alerts s4 = [(''cca-daily'', msg)])"
    by (intro exI)
  with h1 h2 h3 show ?thesis by (intro conjI)
qed

theorem executeTask_history_trim_witness:
  "tasks fullScheduler ''cca-daily'' = Some ccaTask \<and>
   length (executionHistory fullScheduler) = 1000 \<and>
   (\<exists>r s'. executeTask testEngine workingIO ''cca-daily'' fullScheduler = (Returns r, s') \<and>
      length (executionHistory s') = 500 \<and>
      executionHistory s' = map pastResult [502..<1001] @ [r])"
proof -
  have len: "length (executionHistory fullScheduler) = 1000"
    by (simp add: fullScheduler_history del: upt_rec_numeral)
  have dr: "drop 501 (executionHistory fullScheduler) = map pastResult [502..<1001]"
    by (simp add: fullScheduler_history drop_map del: upt_rec_numeral)
  show ?thesis
    using executeTask_history_trim [OF fullScheduler_task len, of testEngine workingIO]
      fullScheduler_task len dr
    by (auto simp del: upt_rec_numeral)
qed

text \<open>
  Claim C2 as stated has entries 501 to 1001 survive. On a history of 1000 entries
  stamped 1 to 1000, after one more execution entry 501 is gone and 500 entries are left.
\<close>

theorem executeTask_history_keeps_500_not_501:
  "length (executionHistory fullScheduler) = 1000 \<and>
   timestamp (executionHistory fullScheduler ! 500) = 501 \<and>
   length (executionHistory (snd (executeTask testEngine workingIO ''cca-daily'' fullScheduler)))
     = 500 \<and>
   executionHistory fullScheduler ! 500
     \<notin> set (executionHistory (snd (executeTask testEngine workingIO ''cca-daily'' fullScheduler)))"
proof -
  have len: "length (executionHistory fullScheduler) = 1000"
    by (simp add: fullScheduler_history del: upt_rec_numeral)
  have e501: "executionHistory fullScheduler ! 500 = pastResult 501"
    by (simp add: fullScheduler_history del: upt_rec_numeral)
  obtain r s' where x:
    "executeTask testEngine workingIO ''cca-daily'' fullScheduler = (Returns r, s')"
    using executeTask_returns [OF fullScheduler_task] by blast
  have h: "executionHistory s' = map pastResult [502..<1001] @ [r]"
    using executeTask_history [OF fullScheduler_task x] len
    by (simp add: sliceLast_def fullScheduler_history drop_map del: upt_rec_numeral)
  have st: "timestamp r = 1001"
    using executeTask_result_stamp [OF fullScheduler_task x] by (simp add: workingIO_def)
  have "pastResult 501 \<notin> set (executionHistory s')"
  proof
    assume "pastResult 501 \<in> set (executionHistory s')"
    then have "timestamp (pastResult 501) \<in> timestamp ` set (executionHistory s')"
      by (rule imageI)
    then show False
      using st by (auto simp add: h pastResult_def simp del: upt_rec_numeral)
  qed
  then show ?thesis
    using len e501 x h by (simp add: pastResult_def del: upt_rec_numeral)
qed

section \<open>Properties of the CSV wire format\<close>

lemma joinWith_map_Cons:
  "joinWith sep (x # map f ys) = x @ concat (map (\<lambda>y. sep @ f y) ys)"
  by (induction ys arbitrary: x) simp_all

lemma str_or_empty: "str_or a [] = a"
  by (simp add: str_or_def)

text \<open>
  Claim C9. For a non-empty record list the CSV text is the header line with the ten
  column names \<open>market_code\<close>, \<open>instrument_code\<close>, \<open>date\<close>, \<open>price\<close>, \<open>price_type\<close>,
  \<open>currency\<close>, \<open>unit\<close>, \<open>volume\<close>, \<open>source_url\<close>, \<open>notes\<close> in this order, followed by one
  line per record, in the order of the records; every field of every line is wrapped
  in double quotes, the fifth field is the constant \<open>close\<close>, the seventh the constant
  \<open>tCO2e\<close>, and the last is \<open>MCP\<close>, the two characters U+91C7 U+96C6, a colon and a
  space, followed by the record's \<open>collectedBy\<close> (printed \<open>undefined\<close> when absent).
\<close>

theorem convertToCSVFormat_layout:
  assumes "records \<noteq> []"
  shows "convertToCSVFormat js records =
           ''\"market_code\",\"instrument_code\",\"date\",\"price\",\"price_type\",\"currency\",\"unit\",\"volume\",\"source_url\",\"notes\"'' @
           concat (map (\<lambda>r. [CHR 0x0A] @
                     ''\"'' @ marketCode r @ ''\",\"'' @ instrumentCode r @ ''\",\"'' @ date r @
                     ''\",\"'' @ numberToString js (price r) @ ''\",\"close\",\"'' @ currency r @
                     ''\",\"tCO2e\",\"'' @
                     (case volume r of None \<Rightarrow> [] | Some v \<Rightarrow> numberToString js v) @ ''\",\"'' @
                     (case sourceUrl r of None \<Rightarrow> [] | Some u \<Rightarrow> u) @ ''\",\"MCP'' @
                     [CHR 0xE9, CHR 0x87, CHR 0x87, CHR 0xE9, CHR 0x9B, CHR 0x86] @ '': '' @
                     (case collectedBy r of None \<Rightarrow> ''undefined'' | Some c \<Rightarrow> c) @ ''\"'')
                   records)"
  using assms
  by (simp add: convertToCSVFormat_def joinWith_map_Cons csvHeaders_def quoteField_def
        csvRow_def str_or_empty notesPrefix_def)

theorem convertToCSVFormat_layout_witness:
  "[ccaRecord] \<noteq> [] \<and>
   convertToCSVFormat testEngine [ccaRecord] =
     ''\"market_code\",\"instrument_code\",\"date\",\"price\",\"price_type\",\"currency\",\"unit\",\"volume\",\"source_url\",\"notes\"'' @
     [CHR 0x0A] @
     ''\"CCA\",\"CCA\",\"2024-01-10\",\"30\",\"close\",\"USD\",\"tCO2e\",\"\",\"https://ww2.arb.ca.gov\",\"MCP'' @
     [CHR 0xE9, CHR 0x87, CHR 0x87, CHR 0xE9, CHR 0x9B, CHR 0x86] @ '': MCP:CARB CSV\"''"
proof -
  have h: "[ccaRecord] \<noteq> []" by simp
  show ?thesis
    using convertToCSVFormat_layout [OF h, of testEngine]
    by (simp add: ccaRecord_def testEngine_def digitChar_def)
qed

section \<open>Properties of the duplicate check\<close>

lemma duplicatesLoop_append:
  "duplicatesLoop seen dups rows = dups @ duplicatesLoop seen [] rows"
proof (induction rows arbitrary: seen dups)
  case Nil
  show ?case by simp
next
  case (Cons row rows)
  show ?case
    using Cons.IH [of "insert (rowKey row) seen" "dups @ [duplicateNotice (rowKey row)]"]
          Cons.IH [of "insert (rowKey row) seen" "[duplicateNotice (rowKey row)]"]
          Cons.IH [of "insert (rowKey row) seen" dups]
    by (simp add: Let_def)
qed

lemma duplicatesLoop_Cons:
  "duplicatesLoop seen [] (row # rows) =
     (if rowKey row \<in> seen then [duplicateNotice (rowKey row)] else []) @
     duplicatesLoop (insert (rowKey row) seen) [] rows"
  using duplicatesLoop_append [of "insert (rowKey row) seen" "[duplicateNotice (rowKey row)]" rows]
  by (simp add: Let_def)

lemma duplicateNotice_inj: "duplicateNotice a = duplicateNotice b \<longleftrightarrow> a = b"
  by (simp add: duplicateNotice_def)

lemma duplicatesLoop_count:
  "length (filter (\<lambda>d. d = duplicateNotice k) (duplicatesLoop seen [] rows)) =
     (if k \<in> seen then length (filter (\<lambda>r. rowKey r = k) rows)
      else length (filter (\<lambda>r. rowKey r = k) rows) - 1)"
proof (induction rows arbitrary: seen)
  case Nil
  show ?case by simp
next
  case (Cons row rows)
  show ?case
    by (simp add: duplicatesLoop_Cons Cons.IH duplicateNotice_inj del: duplicatesLoop.simps)
qed

lemma duplicatesLoop_length:
  "length (duplicatesLoop seen [] rows) + card (rowKey ` set rows - seen) = length rows"
proof (induction rows arbitrary: seen)
  case Nil
  show ?case by simp
next
  case (Cons row rows)
  have fin: "finite (rowKey ` set rows - insert (rowKey row) seen)" by simp
  have eq: "rowKey ` set (row # rows) - seen =
              (if rowKey row \<in> seen then rowKey ` set rows - insert (rowKey row) seen
               else insert (rowKey row) (rowKey ` set rows - insert (rowKey row) seen))"
    by auto
  have notin: "rowKey row \<notin> rowKey ` set rows - insert (rowKey row) seen" by simp
  show ?case
    using Cons.IH [of "insert (rowKey row) seen"]
    by (simp only: duplicatesLoop_Cons eq card_insert_disjoint [OF fin notin] split: if_splits)
       simp
qed

lemma marketString_key_inj:
  "marketString m1 @ ''-'' @ i1 = marketString m2 @ ''-'' @ i2 \<Longrightarrow> m1 = m2 \<and> i1 = i2"
  by (cases m1; cases m2; simp)

lemma rowKey_inj:
  assumes "length (row_date r1) = length (row_date r2)"
  shows "rowKey r1 = rowKey r2 \<longleftrightarrow>
           market_code r1 = market_code r2 \<and> instrument_code r1 = instrument_code r2 \<and>
           row_date r1 = row_date r2"
proof
  assume k: "rowKey r1 = rowKey r2"
  have eq: "(marketString (market_code r1) @ ''-'' @ instrument_code r1 @ ''-'') @ row_date r1 =
        (marketString (market_code r2) @ ''-'' @ instrument_code r2 @ ''-'') @ row_date r2"
    using k by (simp add: rowKey_def)
  from iffD1 [OF append_eq_append_conv [OF disjI2 [OF assms]] eq]
  have a: "marketString (market_code r1) @ ''-'' @ instrument_code r1 @ ''-'' =
                marketString (market_code r2) @ ''-'' @ instrument_code r2 @ ''-''"
    and d: "row_date r1 = row_date r2"
    by blast+
  have "(marketString (market_code r1) @ ''-'' @ instrument_code r1) @ ''-'' =
        (marketString (market_code r2) @ ''-'' @ instrument_code r2) @ ''-''"
    using a by simp
  then have "marketString (market_code r1) @ ''-'' @ instrument_code r1 =
        marketString (market_code r2) @ ''-'' @ instrument_code r2"
    by (simp only: append_same_eq)
  from marketString_key_inj [OF this] d
  show "market_code r1 = market_code r2 \<and> instrument_code r1 = instrument_code r2 \<and>
           row_date r1 = row_date r2" by simp
next
  assume "market_code r1 = market_code r2 \<and> instrument_code r1 = instrument_code r2 \<and>
           row_date r1 = row_date r2"
  then show "rowKey r1 = rowKey r2" by (simp add: rowKey_def)
qed

lemma rowKey_triple:
  "market_code r1 = market_code r2 \<and> instrument_code r1 = instrument_code r2 \<and>
   row_date r1 = row_date r2 \<Longrightarrow> rowKey r1 = rowKey r2"
  by (simp add: rowKey_def)

lemma rowKey_card:
  assumes "\<forall>r\<in>set rows. \<forall>r'\<in>set rows. rowKey r = rowKey r' \<longrightarrow>
             market_code r = market_code r' \<and> instrument_code r = instrument_code r' \<and>
             row_date r = row_date r'"
  shows "card (rowKey ` set rows) =
           card ((\<lambda>r. (market_code r, instrument_code r, row_date r)) ` set rows)"
proof -
  define triple :: "ParsedRow \<Rightarrow> market \<times> string \<times> string"
    where "triple = (\<lambda>r. (market_code r, instrument_code r, row_date r))"
  define keyOf where
    "keyOf = (\<lambda>(m, i, d). marketString m @ ''-'' @ i @ ''-'' @ d)"
  have k: "rowKey r = keyOf (triple r)" for r
    by (simp add: rowKey_def keyOf_def triple_def)
  have img: "rowKey ` set rows = keyOf ` (triple ` set rows)"
    by (simp add: image_image k)
  have inj: "inj_on keyOf (triple ` set rows)"
  proof (rule inj_onI)
    fix a b
    assume a: "a \<in> triple ` set rows" and b: "b \<in> triple ` set rows"
      and e: "keyOf a = keyOf b"
    from a obtain r where r: "r \<in> set rows" "a = triple r" by auto
    from b obtain r' where r': "r' \<in> set rows" "b = triple r'" by auto
    from e r r' have "rowKey r = rowKey r'" by (simp add: k)
    with assms r(1) r'(1)
    have "market_code r = market_code r' \<and> instrument_code r = instrument_code r' \<and>
          row_date r = row_date r'" by blast
    with r(2) r'(2) show "a = b" by (simp add: triple_def)
  qed
  show ?thesis
    unfolding img triple_def [symmetric] by (rule card_image [OF inj])
qed

text \<open>
  Claim C7, as amended: for lists in which rows that differ in market code, instrument
  code or date have different keys, the key being the text \<open>market-instrument-date\<close>; this is so
  whenever every date has the ten characters of \<open>YYYY-MM-DD\<close>. For such a list and
  each of its rows, the notices that name the row's key number the rows with the same
  market code, instrument code and date minus one, and the notices in all number the
  rows minus the distinct triples. For every list whatsoever the same counts hold per
  key text. Two rows with the same market code, instrument code and date yield exactly
  one notice, for the second, and three such rows exactly two.
\<close>

theorem checkDuplicates_counts:
  "((\<forall>r\<in>set rows. \<forall>r'\<in>set rows. rowKey r = rowKey r' \<longrightarrow>
        market_code r = market_code r' \<and> instrument_code r = instrument_code r' \<and>
        row_date r = row_date r') \<longrightarrow>
      (\<forall>r\<in>set rows.
         length (filter (\<lambda>d. d = ''Duplicate entry: '' @ rowKey r) (checkDuplicates rows))
           = length (filter (\<lambda>x. market_code x = market_code r \<and>
                                 instrument_code x = instrument_code r \<and>
                                 row_date x = row_date r) rows) - 1) \<and>
      length (checkDuplicates rows) =
        length rows - card ((\<lambda>r. (market_code r, instrument_code r, row_date r)) ` set rows)) \<and>
   ((\<forall>r\<in>set rows. length (row_date r) = 10) \<longrightarrow>
      (\<forall>r\<in>set rows. \<forall>r'\<in>set rows. rowKey r = rowKey r' \<longrightarrow>
        market_code r = market_code r' \<and> instrument_code r = instrument_code r' \<and>
        row_date r = row_date r')) \<and>
   (\<forall>k. length (filter (\<lambda>d. d = ''Duplicate entry: '' @ k) (checkDuplicates rows))
          = length (filter (\<lambda>r. rowKey r = k) rows) - 1) \<and>
   length (checkDuplicates rows) = length rows - card (rowKey ` set rows) \<and>
   (\<forall>r1 r2. market_code r1 = market_code r2 \<and> instrument_code r1 = instrument_code r2 \<and>
        row_date r1 = row_date r2 \<longrightarrow>
        checkDuplicates [r1, r2] = [''Duplicate entry: '' @ rowKey r2]) \<and>
   (\<forall>r1 r2 r3. market_code r1 = market_code r2 \<and> instrument_code r1 = instrument_code r2 \<and>
        row_date r1 = row_date r2 \<and> market_code r2 = market_code r3 \<and>
        instrument_code r2 = instrument_code r3 \<and> row_date r2 = row_date r3 \<longrightarrow>
        checkDuplicates [r1, r2, r3]
          = [''Duplicate entry: '' @ rowKey r2, ''Duplicate entry: '' @ rowKey r3])"
proof -
  have a: "length (filter (\<lambda>d. d = ''Duplicate entry: '' @ k) (checkDuplicates rows))
          = length (filter (\<lambda>r. rowKey r = k) rows) - 1" for k
    using duplicatesLoop_count [of k "{}" rows]
    by (simp add: checkDuplicates_def duplicateNotice_def)
  have b: "length (checkDuplicates rows) = length rows - card (rowKey ` set rows)"
    using duplicatesLoop_length [of "{}" rows] by (simp add: checkDuplicates_def)
  have c: "\<forall>r1 r2. market_code r1 = market_code r2 \<and> instrument_code r1 = instrument_code r2 \<and>
        row_date r1 = row_date r2 \<longrightarrow>
        checkDuplicates [r1, r2] = [''Duplicate entry: '' @ rowKey r2]"
    by (simp add: checkDuplicates_def rowKey_def Let_def duplicateNotice_def)
  have d: "\<forall>r1 r2 r3. market_code r1 = market_code r2 \<and> instrument_code r1 = instrument_code r2 \<and>
        row_date r1 = row_date r2 \<and> market_code r2 = market_code r3 \<and>
        instrument_code r2 = instrument_code r3 \<and> row_date r2 = row_date r3 \<longrightarrow>
        checkDuplicates [r1, r2, r3]
          = [''Duplicate entry: '' @ rowKey r2, ''Duplicate entry: '' @ rowKey r3]"
    by (simp add: checkDuplicates_def rowKey_def Let_def duplicateNotice_def)
  have e: "(\<forall>r\<in>set rows. \<forall>r'\<in>set rows. rowKey r = rowKey r' \<longrightarrow>
        market_code r = market_code r' \<and> instrument_code r = instrument_code r' \<and>
        row_date r = row_date r') \<longrightarrow>
      (\<forall>r\<in>set rows.
         length (filter (\<lambda>d. d = ''Duplicate entry: '' @ rowKey r) (checkDuplicates rows))
           = length (filter (\<lambda>x. market_code x = market_code r \<and>
                                 instrument_code x = instrument_code r \<and>
                                 row_date x = row_date r) rows) - 1) \<and>
      length (checkDuplicates rows) =
        length rows - card ((\<lambda>r. (market_code r, instrument_code r, row_date r)) ` set rows)"
  proof (rule impI)
    assume h: "\<forall>r\<in>set rows. \<forall>r'\<in>set rows. rowKey r = rowKey r' \<longrightarrow>
        market_code r = market_code r' \<and> instrument_code r = instrument_code r' \<and>
        row_date r = row_date r'"
    have per: "\<forall>r\<in>set rows.
         length (filter (\<lambda>d. d = ''Duplicate entry: '' @ rowKey r) (checkDuplicates rows))
           = length (filter (\<lambda>x. market_code x = market_code r \<and>
                                 instrument_code x = instrument_code r \<and>
                                 row_date x = row_date r) rows) - 1"
    proof (rule ballI)
      fix r
      assume r: "r \<in> set rows"
      have "filter (\<lambda>x. rowKey x = rowKey r) rows =
            filter (\<lambda>x. market_code x = market_code r \<and> instrument_code x = instrument_code r \<and>
                         row_date x = row_date r) rows"
      proof (rule filter_cong [OF refl])
        fix x
        assume x: "x \<in> set rows"
        show "(rowKey x = rowKey r) =
              (market_code x = market_code r \<and> instrument_code x = instrument_code r \<and>
               row_date x = row_date r)"
          using h x r rowKey_triple [of x r] by blast
      qed
      with a [of "rowKey r"]
      show "length (filter (\<lambda>d. d = ''Duplicate entry: '' @ rowKey r) (checkDuplicates rows))
             = length (filter (\<lambda>x. market_code x = market_code r \<and>
                                   instrument_code x = instrument_code r \<and>
                                   row_date x = row_date r) rows) - 1"
        by simp
    qed
    have tot: "length (checkDuplicates rows) =
        length rows - card ((\<lambda>r. (market_code r, instrument_code r, row_date r)) ` set rows)"
      using b by (simp only: rowKey_card [OF h])
    from per tot
    show "(\<forall>r\<in>set rows.
         length (filter (\<lambda>d. d = ''Duplicate entry: '' @ rowKey r) (checkDuplicates rows))
           = length (filter (\<lambda>x. market_code x = market_code r \<and>
                                 instrument_code x = instrument_code r \<and>
                                 row_date x = row_date r) rows) - 1) \<and>
      length (checkDuplicates rows) =
        length rows - card ((\<lambda>r. (market_code r, instrument_code r, row_date r)) ` set rows)"
      by (rule conjI)
  qed
  have f: "(\<forall>r\<in>set rows. length (row_date r) = 10) \<longrightarrow>
      (\<forall>r\<in>set rows. \<forall>r'\<in>set rows. rowKey r = rowKey r' \<longrightarrow>
        market_code r = market_code r' \<and> instrument_code r = instrument_code r' \<and>
        row_date r = row_date r')"
  proof (intro impI ballI)
    fix r r'
    assume len: "\<forall>r\<in>set rows. length (row_date r) = 10"
      and r: "r \<in> set rows" and r': "r' \<in> set rows" and k: "rowKey r = rowKey r'"
    from len r r' have "length (row_date r) = length (row_date r')" by simp
    from iffD1 [OF rowKey_inj [OF this] k]
    show "market_code r = market_code r' \<and> instrument_code r = instrument_code r' \<and>
        row_date r = row_date r'" .
  qed
  have a': "\<forall>k. length (filter (\<lambda>d. d = ''Duplicate entry: '' @ k) (checkDuplicates rows))
          = length (filter (\<lambda>r. rowKey r = k) rows) - 1"
    using a by (intro allI)
  from e f a' b c d show ?thesis by (intro conjI)
qed

theorem checkDuplicates_counts_witness:
  "length (row_date ceaRow) = 10 \<and>
   length (filter (\<lambda>d. d = ''Duplicate entry: CEA-CEA-2024-01-15'')
             (checkDuplicates [ceaRow, ceaRow\<lparr>row_price := Fin 81\<rparr>, ceaRow])) = 2 \<and>
   length (checkDuplicates [ceaRow, ceaRow\<lparr>row_price := Fin 81\<rparr>, ceaRow]) = 2 \<and>
   checkDuplicates [ceaRow, ceaRow\<lparr>row_price := Fin 81\<rparr>]
     = [''Duplicate entry: CEA-CEA-2024-01-15''] \<and>
   checkDuplicates [ceaRow, ceaRow\<lparr>row_price := Fin 81\<rparr>, ceaRow]
     = [''Duplicate entry: CEA-CEA-2024-01-15'', ''Duplicate entry: CEA-CEA-2024-01-15'']"
proof -
  define rows where "rows = [ceaRow, ceaRow\<lparr>row_price := Fin 81\<rparr>, ceaRow]"
  note t = checkDuplicates_counts [of rows]
  have len: "\<forall>r\<in>set rows. length (row_date r) = 10"
    by (simp add: rows_def ceaRow_def)
  have h: "\<forall>r\<in>set rows. \<forall>r'\<in>set rows. rowKey r = rowKey r' \<longrightarrow>
        market_code r = market_code r' \<and> instrument_code r = instrument_code r' \<and>
        row_date r = row_date r'"
    by (rule mp [OF conjunct1 [OF conjunct2 [OF t]] len])
  note counts = mp [OF conjunct1 [OF t] h]
  have mem: "ceaRow \<in> set rows" by (simp add: rows_def)
  have key: "rowKey ceaRow = ''CEA-CEA-2024-01-15''"
    by (simp add: rowKey_def ceaRow_def)
  have n: "length (filter (\<lambda>d. d = ''Duplicate entry: '' @ rowKey ceaRow) (checkDuplicates rows))
           = length (filter (\<lambda>x. market_code x = market_code ceaRow \<and>
                                 instrument_code x = instrument_code ceaRow \<and>
                                 row_date x = row_date ceaRow) rows) - 1"
    by (rule bspec [OF conjunct1 [OF counts] mem])
  have n': "length (filter (\<lambda>d. d = ''Duplicate entry: CEA-CEA-2024-01-15'') (checkDuplicates rows)) = 2"
    using n by (simp add: key) (simp add: rows_def)
  have img: "(\<lambda>r. (market_code r, instrument_code r, row_date r)) ` set rows
               = {(market_code ceaRow, instrument_code ceaRow, row_date ceaRow)}"
    by (auto simp add: rows_def)
  have m: "length (checkDuplicates rows) = 2"
    using conjunct2 [OF counts] by (simp add: img) (simp add: rows_def)
  have two: "checkDuplicates [ceaRow, ceaRow\<lparr>row_price := Fin 81\<rparr>]
       = [''Duplicate entry: CEA-CEA-2024-01-15'']"
    by (simp add: checkDuplicates_def rowKey_def Let_def duplicateNotice_def ceaRow_def)
  have three: "checkDuplicates [ceaRow, ceaRow\<lparr>row_price := Fin 81\<rparr>, ceaRow]
     = [''Duplicate entry: CEA-CEA-2024-01-15'', ''Duplicate entry: CEA-CEA-2024-01-15'']"
    by (simp add: checkDuplicates_def rowKey_def Let_def duplicateNotice_def ceaRow_def)
  have l: "length (row_date ceaRow) = 10" by (simp add: ceaRow_def)
  from l n' m two three show ?thesis
    unfolding rows_def by (intro conjI)
qed

text \<open>
  Claim C7 as stated, for every list of rows, has no notice for two rows that differ in
  instrument code and date. The key joins the three fields with hyphens, so the rows
  (\<open>A-2024\<close>, \<open>01\<close>) and (\<open>A\<close>, \<open>2024-01\<close>) of one market have the same key, and the second
  is reported as a duplicate of the first.
\<close>

theorem checkDuplicates_key_collision:
  "market_code longCodeRow = market_code shortCodeRow \<and>
   instrument_code longCodeRow = ''A-2024'' \<and> row_date longCodeRow = ''01'' \<and>
   instrument_code shortCodeRow = ''A'' \<and> row_date shortCodeRow = ''2024-01'' \<and>
   rowKey longCodeRow = rowKey shortCodeRow \<and>
   checkDuplicates [longCodeRow, shortCodeRow] = [''Duplicate entry: CEA-A-2024-01'']"
  by (simp add: longCodeRow_def shortCodeRow_def ceaRow_def checkDuplicates_def rowKey_def
        Let_def duplicateNotice_def)

section \<open>Properties of calculateScore\<close>

lemma recordDeductions_nonneg: "0 \<le> sum_list (recordDeductions r)"
  by (simp add: recordDeductions_def)

lemma recordDeductions_defective: "defective r \<Longrightarrow> 10 \<le> sum_list (recordDeductions r)"
  by (auto simp add: recordDeductions_def defective_def)

lemma concat_deductions_nonneg: "0 \<le> sum_list (concat (map recordDeductions rs))"
  by (induction rs) (simp_all add: recordDeductions_nonneg)

lemma scoreDeductions_nonneg: "0 \<le> sum_list (scoreDeductions js rs)"
  using concat_deductions_nonneg [of rs] by (simp add: scoreDeductions_def Let_def)

lemma remdups_marketCode_mono:
  "length (remdups (map marketCode rs)) \<le> length (remdups (map marketCode (rs @ [r])))"
proof -
  have "card (set (map marketCode rs)) \<le> card (set (map marketCode (rs @ [r])))"
    by (rule card_mono) auto
  then show ?thesis by (simp only: length_remdups_card_conv)
qed

lemma scoreDeductions_append:
  "sum_list (scoreDeductions js rs) + sum_list (recordDeductions r) - 5
     \<le> sum_list (scoreDeductions js (rs @ [r]))"
  using remdups_marketCode_mono [of rs r]
  by (simp add: scoreDeductions_def Let_def)

lemma calculateScore_bounds: "0 \<le> calculateScore js rs \<and> calculateScore js rs \<le> 100"
  using scoreDeductions_nonneg [of js rs] by (simp add: calculateScore_def Let_def)

lemma calculateScore_append_one:
  assumes "rs \<noteq> []" and "defective r"
  shows "calculateScore js (rs @ [r]) \<le> calculateScore js rs"
  using assms scoreDeductions_append [of js rs r] recordDeductions_defective [OF assms(2)]
  by (simp add: calculateScore_def Let_def)

lemma calculateScore_append_many:
  "rs \<noteq> [] \<Longrightarrow> list_all defective extra \<Longrightarrow>
     calculateScore js (rs @ extra) \<le> calculateScore js rs"
proof (induction extra arbitrary: rs)
  case Nil
  show ?case by simp
next
  case (Cons x xs)
  have "calculateScore js ((rs @ [x]) @ xs) \<le> calculateScore js (rs @ [x])"
    using Cons.prems by (intro Cons.IH) simp_all
  also have "\<dots> \<le> calculateScore js rs"
    using Cons.prems by (intro calculateScore_append_one) simp_all
  finally show ?case by simp
qed

lemma sortedTimes_single: "sortedTimes js [d] = [d]"
  by (cases d) (simp_all add: sortedTimes_def)

lemma calculateScore_undated: "calculateScore js [undatedRecord] = 90"
  by (simp add: calculateScore_def scoreDeductions_def sortedTimes_single recordDeductions_def
        missingRequired_def undatedRecord_def ccaRecord_def js_le_def Let_def)

text \<open>
  Claim C6, as amended. \<open>calculateScore\<close> returns a value between 0 and 100 for every
  batch, and for every non-empty batch the score does not increase when defective
  records (a required field missing, or a price that is not positive) are appended.
\<close>

theorem calculateScore_range_and_decrease:
  "0 \<le> calculateScore js records \<and> calculateScore js records \<le> 100 \<and>
   (records \<noteq> [] \<and> list_all defective extra \<longrightarrow>
      calculateScore js (records @ extra) \<le> calculateScore js records)"
  using calculateScore_bounds [of js records] calculateScore_append_many [of records extra js]
  by blast

theorem calculateScore_range_and_decrease_witness:
  "[ccaRecord] \<noteq> [] \<and> list_all defective [undatedRecord, freeRecord] \<and>
   calculateScore testEngine [ccaRecord] = 100 \<and>
   calculateScore testEngine ([ccaRecord] @ [undatedRecord, freeRecord]) = 65 \<and>
   calculateScore testEngine ([ccaRecord] @ [undatedRecord, freeRecord])
     \<le> calculateScore testEngine [ccaRecord]"
proof -
  have d: "list_all defective [undatedRecord, freeRecord]"
    by (simp add: defective_def missingRequired_def undatedRecord_def freeRecord_def js_le_def
          num_falsy_def)
  have a: "calculateScore testEngine [ccaRecord] = 100"
    by (simp add: calculateScore_def scoreDeductions_def sortedTimes_def recordDeductions_def
          missingRequired_def ccaRecord_def js_le_def num_falsy_def testEngine_def Let_def)
  have b: "calculateScore testEngine ([ccaRecord] @ [undatedRecord, freeRecord]) = 65"
    by (simp add: calculateScore_def scoreDeductions_def sortedTimes_def recordDeductions_def
          missingRequired_def ccaRecord_def undatedRecord_def freeRecord_def js_le_def
          num_falsy_def testEngine_def Let_def)
  show ?thesis
    using calculateScore_range_and_decrease [of testEngine "[ccaRecord]" "[undatedRecord, freeRecord]"]
      d a b
    by simp
qed

text \<open>
  Claim C6 as stated covers the empty batch, whose score is 0: appending a record
  without a date raises the score to 90.
\<close>

theorem calculateScore_rises_from_empty:
  "defective undatedRecord \<and> calculateScore testEngine [] = 0 \<and>
   calculateScore testEngine ([] @ [undatedRecord]) = 90 \<and>
   \<not> calculateScore testEngine ([] @ [undatedRecord]) \<le> calculateScore testEngine []"
  by (simp add: calculateScore_undated)
     (simp add: defective_def missingRequired_def undatedRecord_def calculateScore_def)

text \<open>
  Claim C10. The score of the empty batch is 0 although its list of deductions is
  empty, so appending a defective record (here one without a date) to the empty batch
  strictly increases the score.
\<close>

theorem calculateScore_empty_is_zero:
  "calculateScore js [] = 0 \<and> scoreDeductions js [] = [] \<and> defective undatedRecord \<and>
   calculateScore js [] < calculateScore js ([] @ [undatedRecord])"
  by (simp add: calculateScore_undated)
     (simp add: defective_def missingRequired_def undatedRecord_def calculateScore_def
        scoreDeductions_def sortedTimes_def)

theorem calculateScore_empty_is_zero_witness:
  "calculateScore testEngine [] = 0 \<and> calculateScore testEngine [undatedRecord] = 90"
  using calculateScore_empty_is_zero [of testEngine]
  by (simp add: calculateScore_undated)

section \<open>Properties of checkQuality\<close>

lemma js_lt_irrefl: "\<not> js_lt a a"
  by (cases a) simp_all

lemma js_lt_asym: "js_lt a b \<Longrightarrow> \<not> js_lt b a"
  by (cases a; cases b) simp_all

lemma filter_concat_none:
  "(\<And>x. x \<in> set xs \<Longrightarrow> filter P (f x) = []) \<Longrightarrow> filter P (concat (map f xs)) = []"
  by (induction xs) simp_all

lemma priceRangeWarning_is: "isPriceRangeWarning (priceRangeWarning js rng p)"
  by (simp add: isPriceRangeWarning_def priceRangeWarning_def)

lemma missingFieldWarnings_none:
  "filter isPriceRangeWarning (missingFieldWarnings options r) = []"
  unfolding missingFieldWarnings_def
  by (rule filter_concat_none) (simp add: isPriceRangeWarning_def)

lemma changeWarnings_none:
  "filter isPriceRangeWarning (changeWarnings js options rs) = []"
  unfolding changeWarnings_def
  by (rule filter_concat_none)
     (auto simp add: isPriceRangeWarning_def changeWarning_def Let_def)

lemma recordWarnings_filter:
  "filter isPriceRangeWarning (recordWarnings js options r) =
     (if outsideRange (expectedPriceRange options) (price r)
      then [priceRangeWarning js (expectedPriceRange options) (price r)] else [])"
  by (simp add: recordWarnings_def missingFieldWarnings_none priceRangeWarning_is)

lemma recordWarnings_concat_filter:
  "filter isPriceRangeWarning (concat (map (recordWarnings js options) rs)) =
     map (\<lambda>r. priceRangeWarning js (expectedPriceRange options) (price r))
       (filter (\<lambda>r. outsideRange (expectedPriceRange options) (price r)) rs)"
  by (induction rs) (simp_all add: recordWarnings_filter)

lemma recordWarnings_some:
  "(\<exists>w\<in>set (recordWarnings js options r). isPriceRangeWarning w) \<longleftrightarrow>
     outsideRange (expectedPriceRange options) (price r)"
proof -
  have "(\<exists>w\<in>set (recordWarnings js options r). isPriceRangeWarning w) \<longleftrightarrow>
          filter isPriceRangeWarning (recordWarnings js options r) \<noteq> []"
    by (simp add: filter_empty_conv)
  then show ?thesis by (simp add: recordWarnings_filter)
qed

lemma boundary_inside:
  assumes "js_le (range_min rng) (range_max rng)"
    and "p = range_min rng \<or> p = range_max rng"
  shows "\<not> outsideRange rng p"
  using assms js_lt_irrefl js_lt_asym
  by (auto simp add: outsideRange_def js_le_def js_gt_def)

text \<open>
  Claim C5, as amended. For every batch and every options value, \<open>checkQuality\<close>
  pushes a price-range warning for a record exactly when the price is strictly below
  \<open>expectedPriceRange.min\<close> or strictly above \<open>expectedPriceRange.max\<close>: the price-range
  warnings of the result are those of the out-of-range records, one each, in order.
  When \<open>min \<le> max\<close>, a record whose price equals either bound gets no such warning.
\<close>

theorem checkQuality_price_range:
  "(\<forall>r. (\<exists>w\<in>set (recordWarnings js options r). isPriceRangeWarning w) \<longleftrightarrow>
          (js_lt (price r) (range_min (expectedPriceRange options)) \<or>
           js_gt (price r) (range_max (expectedPriceRange options)))) \<and>
   filter isPriceRangeWarning (qc_warnings (checkQuality js records options)) =
     map (\<lambda>r. priceRangeWarning js (expectedPriceRange options) (price r))
       (filter (\<lambda>r. js_lt (price r) (range_min (expectedPriceRange options)) \<or>
                    js_gt (price r) (range_max (expectedPriceRange options))) records) \<and>
   (js_le (range_min (expectedPriceRange options)) (range_max (expectedPriceRange options)) \<longrightarrow>
      (\<forall>r. price r = range_min (expectedPriceRange options) \<or>
            price r = range_max (expectedPriceRange options) \<longrightarrow>
            \<not> (\<exists>w\<in>set (recordWarnings js options r). isPriceRangeWarning w)))"
proof -
  have a: "\<forall>r. (\<exists>w\<in>set (recordWarnings js options r). isPriceRangeWarning w) \<longleftrightarrow>
          (js_lt (price r) (range_min (expectedPriceRange options)) \<or>
           js_gt (price r) (range_max (expectedPriceRange options)))"
    by (simp only: recordWarnings_some outsideRange_def) simp
  have b: "filter isPriceRangeWarning (qc_warnings (checkQuality js records options)) =
     map (\<lambda>r. priceRangeWarning js (expectedPriceRange options) (price r))
       (filter (\<lambda>r. js_lt (price r) (range_min (expectedPriceRange options)) \<or>
                    js_gt (price r) (range_max (expectedPriceRange options))) records)"
    using recordWarnings_concat_filter [of js options records]
    by (simp add: checkQuality_def Let_def changeWarnings_none outsideRange_def)
  have c: "js_le (range_min (expectedPriceRange options)) (range_max (expectedPriceRange options)) \<longrightarrow>
      (\<forall>r. price r = range_min (expectedPriceRange options) \<or>
            price r = range_max (expectedPriceRange options) \<longrightarrow>
            \<not> (\<exists>w\<in>set (recordWarnings js options r). isPriceRangeWarning w))"
    using boundary_inside [of "expectedPriceRange options"]
    by (simp only: recordWarnings_some) blast
  from a b c show ?thesis by (intro conjI)
qed

theorem checkQuality_price_range_witness:
  "js_le (range_min (expectedPriceRange carbOptions)) (range_max (expectedPriceRange carbOptions)) \<and>
   filter isPriceRangeWarning
     (qc_warnings (checkQuality testEngine
        [ccaRecord\<lparr>price := Fin 5\<rparr>, ccaRecord\<lparr>price := Fin 100\<rparr>,
         ccaRecord\<lparr>price := Fin 101\<rparr>, ccaRecord\<lparr>price := Fin 4\<rparr>] carbOptions))
     = [''Price 101 outside expected range (5-100)'', ''Price 4 outside expected range (5-100)'']"
proof -
  have h: "js_le (range_min (expectedPriceRange carbOptions)) (range_max (expectedPriceRange carbOptions))"
    by (simp add: carbOptions_def js_le_def)
  show ?thesis
    using h conjunct1 [OF conjunct2 [OF checkQuality_price_range [of testEngine carbOptions
        "[ccaRecord\<lparr>price := Fin 5\<rparr>, ccaRecord\<lparr>price := Fin 100\<rparr>,
         ccaRecord\<lparr>price := Fin 101\<rparr>, ccaRecord\<lparr>price := Fin 4\<rparr>]"]]]
    by (simp add: carbOptions_def js_gt_def priceRangeWarning_def testEngine_def digitChar_def)
qed

text \<open>
  Claim C5 as stated holds for every options value. With the range \<open>min = 10\<close>,
  \<open>max = 5\<close> a record whose price equals the bound \<open>min\<close> is above \<open>max\<close> and is warned
  about.
\<close>

theorem checkQuality_warns_at_inverted_boundary:
  "price tenDollarRecord = range_min (expectedPriceRange invertedOptions) \<and>
   qc_warnings (checkQuality testEngine [tenDollarRecord] invertedOptions)
     = [''Price 10 outside expected range (10-5)'']"
  by (simp add: checkQuality_def Let_def recordWarnings_def outsideRange_def js_gt_def
        priceRangeWarning_def missingFieldWarnings_def fieldFalsy_def num_falsy_def
        changeWarnings_def sortRecordsByDate_def invertedOptions_def tenDollarRecord_def
        ccaRecord_def testEngine_def digitChar_def)

section \<open>Validation errors and submission\<close>

lemma carbValidateData_errors:
  "v_errors (carbValidateData js rs) = concat (map (carbRecordErrors js) rs)"
  by (simp add: carbValidateData_def Let_def)

lemma concat_member:
  "record \<in> set batch \<Longrightarrow> e \<in> set (f record) \<Longrightarrow> e \<in> set (concat (map f batch))"
  by auto

lemma CEAAdapter_validateData:
  "\<exists>v. validateData (CEAAdapter js) batch = Returns v \<and> isValid v = (v_errors v = []) \<and>
     (\<forall>record\<in>set batch. marketCode record \<noteq> adapter_marketCode (CEAAdapter js) \<longrightarrow>
        ''Invalid market code: '' @ marketCode record \<in> set (v_errors v)) \<and>
     (\<forall>record\<in>set batch. currency record \<noteq> adapter_currency (CEAAdapter js) \<longrightarrow>
        ''Invalid currency: '' @ currency record \<in> set (v_errors v))"
proof -
  have e: "v_errors (ceaValidateData js batch) = concat (map (ceaRecordErrors js) batch)"
    and i: "isValid (ceaValidateData js batch) = (v_errors (ceaValidateData js batch) = [])"
    by (simp_all add: ceaValidateData_def Let_def)
  have m: "\<forall>record\<in>set batch. marketCode record \<noteq> adapter_marketCode (CEAAdapter js) \<longrightarrow>
        ''Invalid market code: '' @ marketCode record \<in> set (v_errors (ceaValidateData js batch))"
    unfolding e
    by (intro ballI impI, erule concat_member) (simp add: ceaRecordErrors_def CEAAdapter_def)
  have c: "\<forall>record\<in>set batch. currency record \<noteq> adapter_currency (CEAAdapter js) \<longrightarrow>
        ''Invalid currency: '' @ currency record \<in> set (v_errors (ceaValidateData js batch))"
    unfolding e
    by (intro ballI impI, erule concat_member) (simp add: ceaRecordErrors_def CEAAdapter_def)
  have r: "validateData (CEAAdapter js) batch = Returns (ceaValidateData js batch)"
    by (simp add: CEAAdapter_def)
  from r i m c show ?thesis by (intro exI conjI)
qed

lemma CCEROfficialAdapter_validateData:
  "\<exists>v. validateData (CCEROfficialAdapter js clock) batch = Returns v \<and>
     isValid v = (v_errors v = []) \<and>
     (\<forall>record\<in>set batch. marketCode record \<noteq> adapter_marketCode (CCEROfficialAdapter js clock) \<longrightarrow>
        ''Invalid market code: '' @ marketCode record \<in> set (v_errors v)) \<and>
     (\<forall>record\<in>set batch. currency record \<noteq> adapter_currency (CCEROfficialAdapter js clock) \<longrightarrow>
        ''Invalid currency: '' @ currency record \<in> set (v_errors v))"
proof -
  have e: "v_errors (ccerValidateData js clock batch) = concat (map (ccerRecordErrors js) batch)"
    and i: "isValid (ccerValidateData js clock batch)
              = (v_errors (ccerValidateData js clock batch) = [])"
    by (simp_all add: ccerValidateData_def Let_def)
  have m: "\<forall>record\<in>set batch.
        marketCode record \<noteq> adapter_marketCode (CCEROfficialAdapter js clock) \<longrightarrow>
        ''Invalid market code: '' @ marketCode record
          \<in> set (v_errors (ccerValidateData js clock batch))"
    unfolding e
    by (intro ballI impI, erule concat_member)
       (simp add: ccerRecordErrors_def CCEROfficialAdapter_def)
  have c: "\<forall>record\<in>set batch.
        currency record \<noteq> adapter_currency (CCEROfficialAdapter js clock) \<longrightarrow>
        ''Invalid currency: '' @ currency record
          \<in> set (v_errors (ccerValidateData js clock batch))"
    unfolding e
    by (intro ballI impI, erule concat_member)
       (simp add: ccerRecordErrors_def CCEROfficialAdapter_def)
  have r: "validateData (CCEROfficialAdapter js clock) batch
             = Returns (ccerValidateData js clock batch)"
    by (simp add: CCEROfficialAdapter_def)
  from r i m c show ?thesis by (intro exI conjI)
qed

lemma CarbCSVAdapter_validateData:
  "\<exists>v. validateData (CarbCSVAdapter js) batch = Returns v \<and> isValid v = (v_errors v = []) \<and>
     (\<forall>record\<in>set batch. marketCode record \<noteq> adapter_marketCode (CarbCSVAdapter js) \<longrightarrow>
        ''Invalid market code: '' @ marketCode record \<in> set (v_errors v)) \<and>
     (\<forall>record\<in>set batch. currency record \<noteq> adapter_currency (CarbCSVAdapter js) \<longrightarrow>
        ''Invalid currency: '' @ currency record \<in> set (v_errors v))"
proof -
  have e: "v_errors (carbValidateData js batch) = concat (map (carbRecordErrors js) batch)"
    and i: "isValid (carbValidateData js batch) = (v_errors (carbValidateData js batch) = [])"
    by (simp_all add: carbValidateData_def Let_def)
  have m: "\<forall>record\<in>set batch. marketCode record \<noteq> adapter_marketCode (CarbCSVAdapter js) \<longrightarrow>
        ''Invalid market code: '' @ marketCode record \<in> set (v_errors (carbValidateData js batch))"
    unfolding e
    by (intro ballI impI, erule concat_member) (simp add: carbRecordErrors_def CarbCSVAdapter_def)
  have c: "\<forall>record\<in>set batch. currency record \<noteq> adapter_currency (CarbCSVAdapter js) \<longrightarrow>
        ''Invalid currency: '' @ currency record \<in> set (v_errors (carbValidateData js batch))"
    unfolding e
    by (intro ballI impI, erule concat_member) (simp add: carbRecordErrors_def CarbCSVAdapter_def)
  have r: "validateData (CarbCSVAdapter js) batch = Returns (carbValidateData js batch)"
    by (simp add: CarbCSVAdapter_def)
  from r i m c show ?thesis by (intro exI conjI)
qed

lemma CDRfyiAdapter_validateData:
  "\<exists>v. validateData (CDRfyiAdapter js) batch = Returns v \<and> isValid v = (v_errors v = []) \<and>
     (\<forall>record\<in>set batch. marketCode record \<noteq> adapter_marketCode (CDRfyiAdapter js) \<longrightarrow>
        ''Invalid market code: '' @ marketCode record \<in> set (v_errors v)) \<and>
     (\<forall>record\<in>set batch. currency record \<noteq> adapter_currency (CDRfyiAdapter js) \<longrightarrow>
        ''Invalid currency: '' @ currency record \<in> set (v_errors v))"
proof -
  have e: "v_errors (cdrValidateData js batch) = concat (map (cdrRecordErrors js) batch)"
    and i: "isValid (cdrValidateData js batch) = (v_errors (cdrValidateData js batch) = [])"
    by (simp_all add: cdrValidateData_def Let_def)
  have m: "\<forall>record\<in>set batch. marketCode record \<noteq> adapter_marketCode (CDRfyiAdapter js) \<longrightarrow>
        ''Invalid market code: '' @ marketCode record \<in> set (v_errors (cdrValidateData js batch))"
    unfolding e
    by (intro ballI impI, erule concat_member) (simp add: cdrRecordErrors_def CDRfyiAdapter_def)
  have c: "\<forall>record\<in>set batch. currency record \<noteq> adapter_currency (CDRfyiAdapter js) \<longrightarrow>
        ''Invalid currency: '' @ currency record \<in> set (v_errors (cdrValidateData js batch))"
    unfolding e
    by (intro ballI impI, erule concat_member) (simp add: cdrRecordErrors_def CDRfyiAdapter_def)
  have r: "validateData (CDRfyiAdapter js) batch = Returns (cdrValidateData js batch)"
    by (simp add: CDRfyiAdapter_def)
  from r i m c show ?thesis by (intro exI conjI)
qed

lemma adapters_validateData:
  assumes "ad \<in> set (adapters js clock)"
  shows "\<exists>v. validateData ad batch = Returns v \<and> isValid v = (v_errors v = []) \<and>
     (\<forall>record\<in>set batch. marketCode record \<noteq> adapter_marketCode ad \<longrightarrow>
        ''Invalid market code: '' @ marketCode record \<in> set (v_errors v)) \<and>
     (\<forall>record\<in>set batch. currency record \<noteq> adapter_currency ad \<longrightarrow>
        ''Invalid currency: '' @ currency record \<in> set (v_errors v))"
proof -
  from assms consider "ad = CEAAdapter js" | "ad = CCEROfficialAdapter js clock"
    | "ad = CarbCSVAdapter js" | "ad = CDRfyiAdapter js"
    unfolding adapters_def by auto
  then show ?thesis
  proof cases
    case 1
    show ?thesis unfolding 1 by (rule CEAAdapter_validateData)
  next
    case 2
    show ?thesis unfolding 2 by (rule CCEROfficialAdapter_validateData)
  next
    case 3
    show ?thesis unfolding 3 by (rule CarbCSVAdapter_validateData)
  next
    case 4
    show ?thesis unfolding 4 by (rule CDRfyiAdapter_validateData)
  qed
qed

lemma tryBlock_rejected:
  assumes "collected io = Returns (batch, ev)" and "validateData ad batch = Returns v"
    and "isValid v = (v_errors v = [])" and "v_errors v \<noteq> []"
  shows "tryBlock js io ad r0 lg =
           (Some (''Data validation failed: '' @ joinWith '', '' (v_errors v)),
            r0\<lparr>errors := errors r0 @ v_errors v, warnings := warnings r0 @ v_warnings v\<rparr>,
            lg)"
  using assms by (simp add: tryBlock_def)

lemma tryBlock_accepted:
  assumes "collected io = Returns (batch, ev)" and "validateData ad batch = Returns v"
    and "isValid v = (v_errors v = [])" and "v_errors v = []"
  shows "snd (snd (tryBlock js io ad r0 lg)) =
           lg @ (if batch = [] then [] else [convertToCSVFormat js batch])"
  using assms
  by (simp add: tryBlock_def submitDataToAPI_def Let_def split: option.splits)

lemma executeTask_posted:
  assumes "tasks s tid = Some task" and "executeTask js io tid s = (Returns r, s')"
  shows "posted s' = snd (snd (tryBlock js io (task_adapter task) (initialResult tid io) (posted s)))"
proof -
  obtain thrown r1 lg where tb:
    "tryBlock js io (task_adapter task) (initialResult tid io) (posted s) = (thrown, r1, lg)"
    by (cases "tryBlock js io (task_adapter task) (initialResult tid io) (posted s)") auto
  show ?thesis
    using tb assms(2)
    by (cases thrown)
       (auto simp add: executeTask_completed [OF assms(1), of js io r1 lg]
                       executeTask_thrown [OF assms(1), of js io _ r1 lg])
qed

text \<open>
  Claim C3, as amended in its example. For a task of any of the four adapters the
  scheduler is built with, whose collection returns a batch: \<open>validateData\<close> returns a
  result whose \<open>isValid\<close> is false exactly when it lists an error. When it lists at least
  one, the execution fails as a thrown error: its result has \<open>success = False\<close> and
  \<open>recordCount = 0\<close> and carries the validation errors followed by the message
  \<open>Data validation failed\<close>, the retry counter goes up by one, and nothing is posted to
  the import API. When it lists none, the batch is posted once and whole (nothing when
  the batch is empty). A record whose market code is not the adapter's yields the error
  \<open>Invalid market code\<close>, and one whose currency is not the adapter's yields the error
  \<open>Invalid currency\<close>: under the CCA adapter these are a record of the market EU and a
  record priced in CNY.
\<close>

theorem executeTask_rejects_invalid_batch:
  assumes "tasks s tid = Some task" and "task_adapter task \<in> set (adapters js clock)"
    and "collected io = Returns (batch, ev)"
  shows "\<exists>v r s'. validateData (task_adapter task) batch = Returns v \<and>
           executeTask js io tid s = (Returns r, s') \<and>
           isValid v = (v_errors v = []) \<and>
           (v_errors v \<noteq> [] \<longrightarrow>
              \<not> success r \<and> recordCount r = 0 \<and> posted s' = posted s \<and>
              errors r = v_errors v @
                [''Data validation failed: '' @ joinWith '', '' (v_errors v)] \<and>
              map_option retryCount (tasks s' tid) = Some (retryCount task + 1)) \<and>
           (v_errors v = [] \<longrightarrow>
              posted s' = posted s @ (if batch = [] then [] else [convertToCSVFormat js batch])) \<and>
           (\<forall>record\<in>set batch. marketCode record \<noteq> adapter_marketCode (task_adapter task) \<longrightarrow>
              ''Invalid market code: '' @ marketCode record \<in> set (v_errors v)) \<and>
           (\<forall>record\<in>set batch. currency record \<noteq> adapter_currency (task_adapter task) \<longrightarrow>
              ''Invalid currency: '' @ currency record \<in> set (v_errors v))"
proof -
  from adapters_validateData [OF assms(2), of batch]
  obtain v where v: "validateData (task_adapter task) batch = Returns v"
    and i: "isValid v = (v_errors v = [])"
    and m: "\<forall>record\<in>set batch. marketCode record \<noteq> adapter_marketCode (task_adapter task) \<longrightarrow>
              ''Invalid market code: '' @ marketCode record \<in> set (v_errors v)"
    and c: "\<forall>record\<in>set batch. currency record \<noteq> adapter_currency (task_adapter task) \<longrightarrow>
              ''Invalid currency: '' @ currency record \<in> set (v_errors v)"
    by (elim exE conjE)
  obtain r s' where x: "executeTask js io tid s = (Returns r, s')"
    using executeTask_returns [OF assms(1), of js io] by blast
  have bad: "v_errors v \<noteq> [] \<longrightarrow>
              \<not> success r \<and> recordCount r = 0 \<and> posted s' = posted s \<and>
              errors r = v_errors v @
                [''Data validation failed: '' @ joinWith '', '' (v_errors v)] \<and>
              map_option retryCount (tasks s' tid) = Some (retryCount task + 1)"
  proof (rule impI)
    assume e: "v_errors v \<noteq> []"
    note tb = tryBlock_rejected [OF assms(3) v i e, of js "initialResult tid io" "posted s"]
    show "\<not> success r \<and> recordCount r = 0 \<and> posted s' = posted s \<and>
              errors r = v_errors v @
                [''Data validation failed: '' @ joinWith '', '' (v_errors v)] \<and>
              map_option retryCount (tasks s' tid) = Some (retryCount task + 1)"
      using x by (auto simp add: executeTask_thrown [OF assms(1) tb] initialResult_def)
  qed
  have good: "v_errors v = [] \<longrightarrow>
      posted s' = posted s @ (if batch = [] then [] else [convertToCSVFormat js batch])"
  proof (rule impI)
    assume e: "v_errors v = []"
    show "posted s' = posted s @ (if batch = [] then [] else [convertToCSVFormat js batch])"
      using executeTask_posted [OF assms(1) x]
        tryBlock_accepted [OF assms(3) v i e, of js "initialResult tid io" "posted s"]
      by simp
  qed
  from v x i bad good m c show ?thesis by (intro exI conjI)
qed

theorem executeTask_rejects_invalid_batch_witness:
  "tasks freshScheduler ''cca-daily'' = Some ccaTask \<and>
   task_adapter ccaTask \<in> set (adapters testEngine (\<lambda>i. 1705017600000)) \<and>
   adapter_marketCode (task_adapter ccaTask) = ''CCA'' \<and>
   adapter_currency (task_adapter ccaTask) = ''USD'' \<and>
   collected mislabelledIO = Returns ([euRecord, yuanRecord], []) \<and>
   marketCode euRecord = ''EU'' \<and> currency yuanRecord = ''CNY'' \<and>
   (\<exists>v r s'. validateData (task_adapter ccaTask) [euRecord, yuanRecord] = Returns v \<and>
      executeTask testEngine mislabelledIO ''cca-daily'' freshScheduler = (Returns r, s') \<and>
      v_errors v = [''Invalid market code: EU'', ''Invalid currency: CNY''] \<and>
      \<not> isValid v \<and> \<not> success r \<and> recordCount r = 0 \<and> posted s' = [] \<and>
      errors r = [''Invalid market code: EU'', ''Invalid currency: CNY'',
                  ''Data validation failed: Invalid market code: EU, Invalid currency: CNY''])"
proof -
  have h1: "tasks freshScheduler ''cca-daily'' = Some ccaTask"
    by (simp add: freshScheduler_def)
  have h2: "task_adapter ccaTask \<in> set (adapters testEngine (\<lambda>i. 1705017600000))"
    by (simp add: ccaTask_def adapters_def)
  have h3: "collected mislabelledIO = Returns ([euRecord, yuanRecord], [])"
    by (simp add: mislabelledIO_def workingIO_def)
  have a: "adapter_marketCode (task_adapter ccaTask) = ''CCA'' \<and>
           adapter_currency (task_adapter ccaTask) = ''USD''"
    by (simp add: ccaTask_def CarbCSVAdapter_def carbMarketCode_def carbCurrency_def)
  have f: "marketCode euRecord = ''EU'' \<and> currency yuanRecord = ''CNY''"
    by (simp add: euRecord_def yuanRecord_def ccaRecord_def)
  have p: "posted freshScheduler = []"
    by (simp add: freshScheduler_def)
  have e: "v_errors (carbValidateData testEngine [euRecord, yuanRecord])
             = [''Invalid market code: EU'', ''Invalid currency: CNY'']"
    by (simp add: carbValidateData_errors carbRecordErrors_def euRecord_def yuanRecord_def
          ccaRecord_def testEngine_def carbMarketCode_def carbCurrency_def)
  have j: "joinWith '', '' [''Invalid market code: EU'', ''Invalid currency: CNY'']
             = ''Invalid market code: EU, Invalid currency: CNY''"
    by simp
  from executeTask_rejects_invalid_batch [OF h1 h2 h3]
  obtain v r s' where
    v: "validateData (task_adapter ccaTask) [euRecord, yuanRecord] = Returns v"
    and x: "executeTask testEngine mislabelledIO ''cca-daily'' freshScheduler = (Returns r, s')"
    and i: "isValid v = (v_errors v = [])"
    and b: "v_errors v \<noteq> [] \<longrightarrow>
              \<not> success r \<and> recordCount r = 0 \<and> posted s' = posted freshScheduler \<and>
              errors r = v_errors v @
                [''Data validation failed: '' @ joinWith '', '' (v_errors v)] \<and>
              map_option retryCount (tasks s' ''cca-daily'') = Some (retryCount ccaTask + 1)"
    by (elim exE conjE)
  have veq: "v = carbValidateData testEngine [euRecord, yuanRecord]"
    using v by (simp add: ccaTask_def CarbCSVAdapter_def)
  have ev: "v_errors v = [''Invalid market code: EU'', ''Invalid currency: CNY'']"
    unfolding veq by (rule e)
  have nv: "\<not> isValid v"
    using i ev by simp
  have ne: "v_errors v \<noteq> []"
    using ev by simp
  note bb = mp [OF b ne]
  have r1: "\<not> success r" by (rule conjunct1 [OF bb])
  have r2: "recordCount r = 0" by (rule conjunct1 [OF conjunct2 [OF bb]])
  have r3: "posted s' = []"
    using conjunct1 [OF conjunct2 [OF conjunct2 [OF bb]]] p by simp
  have r4: "errors r = [''Invalid market code: EU'', ''Invalid currency: CNY'',
                  ''Data validation failed: Invalid market code: EU, Invalid currency: CNY'']"
    using conjunct1 [OF conjunct2 [OF conjunct2 [OF conjunct2 [OF bb]]]]
    by (simp only: ev j) simp
  from v x ev nv r1 r2 r3 r4
  have ex: "\<exists>v r s'. validateData (task_adapter ccaTask) [euRecord, yuanRecord] = Returns v \<and>
      executeTask testEngine mislabelledIO ''cca-daily'' freshScheduler = (Returns r, s') \<and>
      v_errors v = [''Invalid market code: EU'', ''Invalid currency: CNY''] \<and>
      \<not> isValid v \<and> \<not> success r \<and> recordCount r = 0 \<and> posted s' = [] \<and>
      errors r = [''Invalid market code: EU'', ''Invalid currency: CNY'',
                  ''Data validation failed: Invalid market code: EU, Invalid currency: CNY'']"
    by (intro exI conjI)
  from h1 h2 a h3 f ex show ?thesis
    by (elim conjE) (intro conjI)
qed

text \<open>
  Claim C3 as stated has a record whose currency is USD produce the error
  \<open>Invalid currency\<close> under the CCA adapter. USD is that adapter's own currency: for the
  record of the market EU priced in USD the only error is \<open>Invalid market code\<close>, and a
  CCA record priced in USD has no error, is valid and is posted.
\<close>

theorem carbValidateData_accepts_usd:
  "adapter_currency (CarbCSVAdapter testEngine) = ''USD'' \<and>
   marketCode euRecord = ''EU'' \<and> currency euRecord = ''USD'' \<and>
   v_errors (carbValidateData testEngine [euRecord]) = [''Invalid market code: EU''] \<and>
   marketCode ccaRecord = ''CCA'' \<and> currency ccaRecord = ''USD'' \<and>
   v_errors (carbValidateData testEngine [ccaRecord]) = [] \<and>
   isValid (carbValidateData testEngine [ccaRecord]) \<and>
   posted (snd (executeTask testEngine workingIO ''cca-daily'' freshScheduler))
     = [convertToCSVFormat testEngine [ccaRecord]]"
proof -
  have a: "adapter_currency (CarbCSVAdapter testEngine) = ''USD''"
    by (simp add: CarbCSVAdapter_def carbCurrency_def)
  have b: "marketCode euRecord = ''EU''" "currency euRecord = ''USD''"
    "marketCode ccaRecord = ''CCA''" "currency ccaRecord = ''USD''"
    by (simp_all add: euRecord_def ccaRecord_def)
  have c: "v_errors (carbValidateData testEngine [euRecord]) = [''Invalid market code: EU'']"
    by (simp add: carbValidateData_errors carbRecordErrors_def euRecord_def ccaRecord_def
          testEngine_def carbMarketCode_def carbCurrency_def)
  have d: "v_errors (carbValidateData testEngine [ccaRecord]) = []"
    by (simp add: carbValidateData_errors carbRecordErrors_def ccaRecord_def
          testEngine_def carbMarketCode_def carbCurrency_def)
  have e: "isValid (carbValidateData testEngine [ccaRecord])"
    using d by (simp add: carbValidateData_def Let_def)
  have t: "tasks freshScheduler ''cca-daily'' = Some ccaTask"
    by (simp add: freshScheduler_def)
  obtain r s' where x: "executeTask testEngine workingIO ''cca-daily'' freshScheduler = (Returns r, s')"
    using executeTask_returns [OF t, of testEngine workingIO] by blast
  have v: "validateData (task_adapter ccaTask) [ccaRecord]
             = Returns (carbValidateData testEngine [ccaRecord])"
    by (simp add: ccaTask_def CarbCSVAdapter_def)
  have io: "collected workingIO = Returns ([ccaRecord], [])"
    by (simp add: workingIO_def)
  have i: "isValid (carbValidateData testEngine [ccaRecord])
             = (v_errors (carbValidateData testEngine [ccaRecord]) = [])"
    by (simp add: carbValidateData_def Let_def)
  have p: "posted freshScheduler = []"
    by (simp add: freshScheduler_def)
  have f: "posted (snd (executeTask testEngine workingIO ''cca-daily'' freshScheduler))
     = [convertToCSVFormat testEngine [ccaRecord]]"
    using executeTask_posted [OF t x]
      tryBlock_accepted [OF io v i d, of testEngine "initialResult ''cca-daily'' workingIO"
        "posted freshScheduler"]
    by (simp add: x p)
  from a b(1) b(2) c b(3) b(4) d e f show ?thesis by (intro conjI)
qed

section \<open>Properties of date normalization\<close>

lemma isDigit_not_sep: "isDigit c \<Longrightarrow> \<not> isSep c"
  by (auto simp add: isDigit_def isSep_def)

lemma digitRun_digits: "digitRun lo hi g \<Longrightarrow> list_all isDigit g"
  by (simp add: digitRun_def)

lemma splitSep_sep:
  "list_all isDigit g \<Longrightarrow> isSep c \<Longrightarrow> splitSep (g @ c # rest) = g # splitSep rest"
  by (induction g) (simp_all add: isDigit_not_sep)

lemma splitSep_plain: "list_all isDigit g \<Longrightarrow> splitSep g = [g]"
  by (induction g) (simp_all add: isDigit_not_sep)

lemma splitSep_three:
  assumes "list_all isDigit a" and "list_all isDigit b" and "list_all isDigit c"
    and "isSep s1" and "isSep s2"
  shows "splitSep (a @ [s1] @ b @ [s2] @ c) = [a, b, c]"
  using assms by (simp add: splitSep_sep splitSep_plain)

lemma cleanDate_three:
  assumes "list_all isDigit a" and "list_all isDigit b" and "list_all isDigit c"
    and "isSep s1" and "isSep s2"
  shows "cleanDate (a @ [s1] @ b @ [s2] @ c) = a @ [s1] @ b @ [s2] @ c"
  using assms by (simp add: cleanDate_def list_all_iff)

lemma matchGroups_three:
  assumes "list_all isDigit a" and "list_all isDigit b" and "list_all isDigit c"
    and "isSep s1" and "isSep s2"
  shows "matchGroups b1 b2 b3 (a @ [s1] @ b @ [s2] @ c) =
           (if digitRun (fst b1) (snd b1) a \<and> digitRun (fst b2) (snd b2) b \<and>
               digitRun (fst b3) (snd b3) c
            then Some (a, b, c) else None)"
  by (simp only: matchGroups_def splitSep_three [OF assms]) simp

lemma normalizeDate_ymd:
  assumes "digitRun 4 4 y" and "digitRun 1 2 m" and "digitRun 1 2 d"
    and "isSep s1" and "isSep s2"
  shows "normalizeDate (y @ [s1] @ m @ [s2] @ d) =
           (if validYMD (parseInt y) (parseInt m) (parseInt d)
            then Some (formatYMD (parseInt y) (parseInt m) (parseInt d)) else None)"
proof -
  note dg = digitRun_digits [OF assms(1)] digitRun_digits [OF assms(2)] digitRun_digits [OF assms(3)]
  have c: "cleanDate (y @ [s1] @ m @ [s2] @ d) = y @ [s1] @ m @ [s2] @ d"
    by (rule cleanDate_three [OF dg assms(4,5)])
  have ny: "\<not> digitRun 1 2 y" using assms(1) by (simp add: digitRun_def)
  show ?thesis
    using assms(1-3) ny
    by (simp only: normalizeDate_def c firstFormat.simps tryFormat_def matchFormat_def
          matchGroups_three [OF dg assms(4,5)])
       simp
qed

lemma normalizeDate_mdy:
  assumes "digitRun 4 4 y" and "digitRun 1 2 m" and "digitRun 1 2 d"
    and "isSep s1" and "isSep s2"
  shows "normalizeDate (m @ [s1] @ d @ [s2] @ y) =
           (if validYMD (parseInt y) (parseInt m) (parseInt d)
            then Some (formatYMD (parseInt y) (parseInt m) (parseInt d)) else None)"
proof -
  note dg = digitRun_digits [OF assms(2)] digitRun_digits [OF assms(3)] digitRun_digits [OF assms(1)]
  have c: "cleanDate (m @ [s1] @ d @ [s2] @ y) = m @ [s1] @ d @ [s2] @ y"
    by (rule cleanDate_three [OF dg assms(4,5)])
  have ny: "\<not> digitRun 1 2 y" "\<not> digitRun 4 4 m" "\<not> digitRun 2 2 y"
    using assms(1,2) by (simp_all add: digitRun_def)
  show ?thesis
    using assms(1-3) ny
    by (simp only: normalizeDate_def c firstFormat.simps tryFormat_def matchFormat_def
          matchGroups_three [OF dg assms(4,5)])
       simp
qed

lemma normalizeDate_mdyy:
  assumes "digitRun 2 2 yy" and "digitRun 1 2 m" and "digitRun 1 2 d"
    and "isSep s1" and "isSep s2"
  shows "normalizeDate (m @ [s1] @ d @ [s2] @ yy) =
           (let year = (if parseInt yy < 50 then 2000 + parseInt yy else 1900 + parseInt yy)
            in if validYMD year (parseInt m) (parseInt d)
               then Some (formatYMD year (parseInt m) (parseInt d)) else None)"
proof -
  note dg = digitRun_digits [OF assms(2)] digitRun_digits [OF assms(3)] digitRun_digits [OF assms(1)]
  have c: "cleanDate (m @ [s1] @ d @ [s2] @ yy) = m @ [s1] @ d @ [s2] @ yy"
    by (rule cleanDate_three [OF dg assms(4,5)])
  have ny: "\<not> digitRun 4 4 yy" "\<not> digitRun 4 4 m"
    using assms(1,2) by (simp_all add: digitRun_def)
  show ?thesis
    using assms(1-3) ny
    by (simp only: normalizeDate_def c firstFormat.simps tryFormat_def matchFormat_def
          matchGroups_three [OF dg assms(4,5)])
       (simp add: Let_def)
qed


lemma digitVal_le: "isDigit c \<Longrightarrow> digitVal c \<le> 9"
  by (auto simp add: isDigit_def digitVal_def)

lemma foldl_digits_bound:
  "list_all isDigit g \<Longrightarrow>
     foldl (\<lambda>acc c. 10 * acc + digitVal c) a g + 1 \<le> (a + 1) * 10 ^ length g"
proof (induction g arbitrary: a)
  case Nil
  show ?case by simp
next
  case (Cons c cs)
  have "foldl (\<lambda>acc c. 10 * acc + digitVal c) (10 * a + digitVal c) cs + 1
          \<le> (10 * a + digitVal c + 1) * 10 ^ length cs"
    using Cons.prems by (intro Cons.IH) simp
  also have "\<dots> \<le> (10 * a + 10) * 10 ^ length cs"
    using digitVal_le [of c] Cons.prems by (intro mult_right_mono) simp_all
  finally show ?case by (simp add: algebra_simps)
qed

lemma parseInt_bound: "list_all isDigit g \<Longrightarrow> parseInt g < 10 ^ length g"
  using foldl_digits_bound [of g 0] by (simp add: parseInt_def)

lemma digitChar_digit: "k < 10 \<Longrightarrow> isDigit (digitChar k)"
proof -
  assume "k < 10"
  then have "k = 0 \<or> k = 1 \<or> k = 2 \<or> k = 3 \<or> k = 4 \<or> k = 5 \<or> k = 6 \<or> k = 7 \<or> k = 8 \<or> k = 9"
    by arith
  then show ?thesis
    by (elim disjE) (simp_all add: isDigit_def digitChar_def)
qed

lemma showNat_two:
  assumes "n < 100"
  shows "padStart2 (showNat n) = [digitChar (n div 10), digitChar (n mod 10)]"
proof (cases "n < 10")
  case True
  then show ?thesis by (simp add: padStart2_def digitChar_def)
next
  case False
  moreover have "n div 10 < 10" using assms by arith
  ultimately show ?thesis by (simp add: padStart2_def)
qed

lemma showNat_four:
  assumes "1000 \<le> n" and "n < 10000"
  shows "showNat n = [digitChar (n div 1000), digitChar (n div 100 mod 10),
                      digitChar (n div 10 mod 10), digitChar (n mod 10)]"
proof -
  have a: "showNat n = showNat (n div 10) @ [digitChar (n mod 10)]"
    using assms by simp
  have b: "showNat (n div 10) = showNat (n div 100) @ [digitChar (n div 10 mod 10)]"
    using assms by (simp add: div_mult2_eq [symmetric])
  have c: "showNat (n div 100) = showNat (n div 1000) @ [digitChar (n div 100 mod 10)]"
    using assms by (simp add: div_mult2_eq [symmetric])
  have d: "showNat (n div 1000) = [digitChar (n div 1000)]"
    using assms by simp
  show ?thesis by (simp only: a b c d) simp
qed

lemma formatYMD_iso:
  assumes "1000 \<le> y" and "y < 10000" and "m < 100" and "d < 100"
  shows "isoShape (formatYMD y m d)"
proof -
  have k: "y div 1000 < 10" "y div 100 mod 10 < 10" "y div 10 mod 10 < 10" "y mod 10 < 10"
    "m div 10 < 10" "m mod 10 < 10" "d div 10 < 10" "d mod 10 < 10"
    using assms by simp_all
  show ?thesis
    using k [THEN digitChar_digit]
    by (simp add: formatYMD_def showNat_four [OF assms(1,2)] showNat_two [OF assms(3)]
          showNat_two [OF assms(4)] isoShape_def del: showNat.simps)
qed

lemma matchGroups_Some:
  assumes "matchGroups b1 b2 b3 s = Some (g1, g2, g3)"
  shows "digitRun (fst b1) (snd b1) g1 \<and> digitRun (fst b2) (snd b2) g2 \<and>
         digitRun (fst b3) (snd b3) g3"
proof (cases "splitSep s")
  case Nil
  with assms show ?thesis by (simp add: matchGroups_def)
next
  case (Cons a as)
  note c1 = this
  show ?thesis
  proof (cases as)
    case Nil
    with c1 assms show ?thesis by (simp add: matchGroups_def)
  next
    case (Cons b bs)
    note c2 = this
    show ?thesis
    proof (cases bs)
      case Nil
      with c1 c2 assms show ?thesis by (simp add: matchGroups_def)
    next
      case (Cons c cs)
      with c1 c2 assms show ?thesis
        by (cases cs) (simp_all add: matchGroups_def split: if_splits)
    qed
  qed
qed

lemma tryFormat_result:
  assumes "tryFormat k clean = Some t"
  shows "\<exists>y m d. validYMD y m d \<and> y < 10000 \<and> t = formatYMD y m d"
proof -
  obtain g1 g2 g3 where mf: "matchFormat k clean = Some (g1, g2, g3)"
    using assms by (cases "matchFormat k clean") (auto simp add: tryFormat_def)
  have b4: "parseInt g < 10000" if "digitRun 4 4 g" for g
  proof -
    from that have "length g = 4" and "list_all isDigit g" by (simp_all add: digitRun_def)
    with parseInt_bound [of g] show ?thesis by simp
  qed
  have b2: "parseInt g < 100" if "digitRun 2 2 g" for g
  proof -
    from that have "length g = 2" and "list_all isDigit g" by (simp_all add: digitRun_def)
    with parseInt_bound [of g] show ?thesis by simp
  qed
  show ?thesis
  proof (cases "k = 0")
    case True
    have "digitRun 4 4 g1"
      using mf True matchGroups_Some [of "(4, 4)" "(1, 2)" "(1, 2)" clean g1 g2 g3]
      by (simp add: matchFormat_def)
    then have y: "parseInt g1 < 10000" by (rule b4)
    have "validYMD (parseInt g1) (parseInt g2) (parseInt g3) \<and>
          t = formatYMD (parseInt g1) (parseInt g2) (parseInt g3)"
      using assms mf True by (simp add: tryFormat_def split: if_splits)
    with y show ?thesis by blast
  next
    case False
    note k0 = this
    show ?thesis
    proof (cases "k = 1")
      case True
      have "digitRun 4 4 g3"
        using mf True matchGroups_Some [of "(1, 2)" "(1, 2)" "(4, 4)" clean g1 g2 g3]
        by (simp add: matchFormat_def)
      then have y: "parseInt g3 < 10000" by (rule b4)
      have "validYMD (parseInt g3) (parseInt g1) (parseInt g2) \<and>
            t = formatYMD (parseInt g3) (parseInt g1) (parseInt g2)"
        using assms mf True by (simp add: tryFormat_def split: if_splits)
      with y show ?thesis by blast
    next
      case False
      define year where
        "year = (if parseInt g3 < 50 then 2000 + parseInt g3 else 1900 + parseInt g3)"
      have "digitRun 2 2 g3"
        using mf k0 False matchGroups_Some [of "(1, 2)" "(1, 2)" "(2, 2)" clean g1 g2 g3]
        by (simp add: matchFormat_def)
      then have "parseInt g3 < 100" by (rule b2)
      then have y: "year < 10000" by (simp add: year_def)
      have "validYMD year (parseInt g1) (parseInt g2) \<and>
            t = formatYMD year (parseInt g1) (parseInt g2)"
        using assms mf k0 False
        by (simp add: tryFormat_def Let_def year_def split: if_splits)
      with y show ?thesis by blast
    qed
  qed
qed

lemma normalizeDate_result:
  assumes "normalizeDate s = Some t"
  shows "isoShape t \<and> (\<exists>y m d. validYMD y m d \<and> t = formatYMD y m d)"
proof -
  have "tryFormat 0 (cleanDate s) = Some t \<or> tryFormat 1 (cleanDate s) = Some t \<or>
        tryFormat 2 (cleanDate s) = Some t"
    using assms
    by (cases "tryFormat 0 (cleanDate s)"; cases "tryFormat 1 (cleanDate s)";
        cases "tryFormat 2 (cleanDate s)")
       (simp_all add: normalizeDate_def)
  then obtain k where "tryFormat k (cleanDate s) = Some t" by blast
  from tryFormat_result [OF this]
  obtain y m d where v: "validYMD y m d" and b: "y < 10000" and t: "t = formatYMD y m d"
    by blast
  have "isoShape (formatYMD y m d)"
    using v b by (intro formatYMD_iso) (simp_all add: validYMD_def)
  with v t show ?thesis by blast
qed

lemma cleanDate_idem: "cleanDate (cleanDate s) = cleanDate s"
  by (simp add: cleanDate_def)

lemma normalizeDate_clean: "normalizeDate s = normalizeDate (cleanDate s)"
  by (simp add: normalizeDate_def cleanDate_idem)

lemma replaceAll_skip:
  "pat \<noteq> [] \<Longrightarrow> hd pat \<notin> set a \<Longrightarrow> replaceAll pat rep (a @ rest) = a @ replaceAll pat rep rest"
proof (induction a)
  case Nil
  show ?case by simp
next
  case (Cons c cs)
  have "take (length pat) (c # cs @ rest) \<noteq> pat"
  proof
    assume "take (length pat) (c # cs @ rest) = pat"
    then have "hd (take (length pat) (c # cs @ rest)) = hd pat" by simp
    moreover have "0 < length pat" using Cons.prems(1) by simp
    ultimately have "c = hd pat" by (cases "length pat") simp_all
    with Cons.prems(2) show False by simp
  qed
  with Cons show ?case by simp
qed

lemma replaceAll_absent:
  "pat \<noteq> [] \<Longrightarrow> hd pat \<notin> set a \<Longrightarrow> replaceAll pat rep a = a"
  using replaceAll_skip [of pat a rep "[]"] by simp

lemma replaceAll_hit:
  "pat \<noteq> [] \<Longrightarrow> replaceAll pat rep (pat @ rest) = rep @ replaceAll pat rep rest"
  by (cases pat) simp_all

lemma list_ten:
  assumes "length s = 10"
  shows "\<exists>a b c d e f g h i j. s = [a, b, c, d, e, f, g, h, i, j]"
proof -
  from assms obtain a s1 where 1: "s = a # s1" "length s1 = 9" by (cases s) simp_all
  then obtain b s2 where 2: "s1 = b # s2" "length s2 = 8" by (cases s1) simp_all
  then obtain c s3 where 3: "s2 = c # s3" "length s3 = 7" by (cases s2) simp_all
  then obtain d s4 where 4: "s3 = d # s4" "length s4 = 6" by (cases s3) simp_all
  then obtain e s5 where 5: "s4 = e # s5" "length s5 = 5" by (cases s4) simp_all
  then obtain f s6 where 6: "s5 = f # s6" "length s6 = 4" by (cases s5) simp_all
  then obtain g s7 where 7: "s6 = g # s7" "length s7 = 3" by (cases s6) simp_all
  then obtain h s8 where 8: "s7 = h # s8" "length s8 = 2" by (cases s7) simp_all
  then obtain i s9 where 9: "s8 = i # s9" "length s9 = 1" by (cases s8) simp_all
  then obtain j s10 where 10: "s9 = j # s10" "length s10 = 0" by (cases s9) simp_all
  from 1 2 3 4 5 6 7 8 9 10 have "s = [a, b, c, d, e, f, g, h, i, j]" by simp
  then show ?thesis by blast
qed

lemma isoShape_chars:
  assumes "isoShape s"
  shows "list_all (\<lambda>c. isDigit c \<or> c = CHR ''-'') s"
proof -
  from assms have "length s = 10" by (simp add: isoShape_def)
  from list_ten [OF this] obtain a b c d e f g h i j
    where s: "s = [a, b, c, d, e, f, g, h, i, j]" by blast
  show ?thesis using assms unfolding s by (simp add: isoShape_def)
qed

lemma digits_no_cjk:
  assumes "list_all (\<lambda>c. isDigit c \<or> c = CHR ''-'') s"
  shows "CHR 0xE5 \<notin> set s \<and> CHR 0xE6 \<notin> set s"
proof -
  have "\<not> (isDigit (CHR 0xE5) \<or> CHR 0xE5 = CHR ''-'')"
    by (simp add: isDigit_def)
  moreover have "\<not> (isDigit (CHR 0xE6) \<or> CHR 0xE6 = CHR ''-'')"
    by (simp add: isDigit_def)
  ultimately show ?thesis
    using assms unfolding list_all_iff by blast
qed

lemma parseDateString_iso:
  assumes "isoShape s"
  shows "parseDateString js s = Some s"
proof -
  note n = digits_no_cjk [OF isoShape_chars [OF assms]]
  have "replaceAll yearChar ''-'' s = s"
    using n by (intro replaceAll_absent) (simp_all add: yearChar_def)
  moreover have "replaceAll monthChar ''-'' s = s"
    using n by (intro replaceAll_absent) (simp_all add: monthChar_def)
  moreover have "replaceAll dayChar [] s = s"
    using n by (intro replaceAll_absent) (simp_all add: dayChar_def)
  ultimately show ?thesis
    using assms by (simp add: parseDateString_def)
qed


lemma digits_chars: "list_all isDigit g \<Longrightarrow> list_all (\<lambda>c. isDigit c \<or> c = CHR ''-'') g"
  by (simp add: list_all_iff)

lemma cjk_replaced:
  assumes "digitRun 4 4 y" and "digitRun 2 2 m" and "digitRun 2 2 d"
  shows "replaceAll dayChar [] (replaceAll monthChar ''-''
           (replaceAll yearChar ''-'' (y @ yearChar @ m @ monthChar @ d @ dayChar)))
         = y @ ''-'' @ m @ ''-'' @ d"
proof -
  note ny = digits_no_cjk [OF digits_chars [OF digitRun_digits [OF assms(1)]]]
  note nm = digits_no_cjk [OF digits_chars [OF digitRun_digits [OF assms(2)]]]
  note nd = digits_no_cjk [OF digits_chars [OF digitRun_digits [OF assms(3)]]]
  have y1: "replaceAll yearChar ''-'' (y @ yearChar @ m @ monthChar @ d @ dayChar)
              = y @ ''-'' @ replaceAll yearChar ''-'' (m @ monthChar @ d @ dayChar)"
  proof -
    have "hd yearChar \<notin> set y"
      using ny by (simp add: yearChar_def)
    then have "replaceAll yearChar ''-'' (y @ yearChar @ m @ monthChar @ d @ dayChar)
                 = y @ replaceAll yearChar ''-'' (yearChar @ m @ monthChar @ d @ dayChar)"
      by (intro replaceAll_skip) (simp_all add: yearChar_def)
    also have "replaceAll yearChar ''-'' (yearChar @ m @ monthChar @ d @ dayChar)
                 = ''-'' @ replaceAll yearChar ''-'' (m @ monthChar @ d @ dayChar)"
      by (intro replaceAll_hit) (simp add: yearChar_def)
    finally show ?thesis .
  qed
  have y2: "replaceAll yearChar ''-'' (m @ monthChar @ d @ dayChar) = m @ monthChar @ d @ dayChar"
    using nm nd by (intro replaceAll_absent) (simp_all add: yearChar_def monthChar_def dayChar_def)
  have m1: "replaceAll monthChar ''-'' (y @ ''-'' @ m @ monthChar @ d @ dayChar)
              = (y @ ''-'' @ m) @ ''-'' @ replaceAll monthChar ''-'' (d @ dayChar)"
  proof -
    have "hd monthChar \<notin> set (y @ ''-'' @ m)"
      using ny nm by (simp add: monthChar_def)
    then have "replaceAll monthChar ''-'' ((y @ ''-'' @ m) @ monthChar @ d @ dayChar)
                 = (y @ ''-'' @ m) @ replaceAll monthChar ''-'' (monthChar @ d @ dayChar)"
      by (intro replaceAll_skip) (simp_all add: monthChar_def)
    also have "replaceAll monthChar ''-'' (monthChar @ d @ dayChar)
                 = ''-'' @ replaceAll monthChar ''-'' (d @ dayChar)"
      by (intro replaceAll_hit) (simp add: monthChar_def)
    finally show ?thesis by simp
  qed
  have m2: "replaceAll monthChar ''-'' (d @ dayChar) = d @ dayChar"
  proof -
    have "replaceAll monthChar ''-'' (d @ dayChar) = d @ replaceAll monthChar ''-'' dayChar"
      using nd by (intro replaceAll_skip) (simp_all add: monthChar_def)
    also have "replaceAll monthChar ''-'' dayChar = dayChar"
      by (simp add: monthChar_def dayChar_def)
    finally show ?thesis .
  qed
  have d1: "replaceAll dayChar [] ((y @ ''-'' @ m @ ''-'' @ d) @ dayChar)
              = (y @ ''-'' @ m @ ''-'' @ d) @ replaceAll dayChar [] dayChar"
    using ny nm nd by (intro replaceAll_skip) (simp_all add: dayChar_def)
  have d2: "replaceAll dayChar [] dayChar = []"
    by (simp add: dayChar_def)
  have e1: "replaceAll yearChar ''-'' (y @ yearChar @ m @ monthChar @ d @ dayChar)
              = y @ ''-'' @ m @ monthChar @ d @ dayChar"
    by (simp only: y1 y2)
  have e2: "replaceAll monthChar ''-'' (y @ ''-'' @ m @ monthChar @ d @ dayChar)
              = (y @ ''-'' @ m @ ''-'' @ d) @ dayChar"
    by (simp only: m1 m2 append_assoc)
  have e3: "replaceAll dayChar [] ((y @ ''-'' @ m @ ''-'' @ d) @ dayChar)
              = y @ ''-'' @ m @ ''-'' @ d"
    by (simp only: d1 d2 append_Nil2)
  show ?thesis
    by (simp only: e1 e2 e3)
qed

lemma isoShape_joined:
  assumes "digitRun 4 4 y" and "digitRun 2 2 m" and "digitRun 2 2 d"
  shows "isoShape (y @ ''-'' @ m @ ''-'' @ d)"
proof -
  from assms have l: "length y = 4" "length m = 2" "length d = 2"
    and g: "list_all isDigit y" "list_all isDigit m" "list_all isDigit d"
    by (simp_all add: digitRun_def)
  show ?thesis
    using l g by (simp add: isoShape_def nth_append)
qed

lemma parseDateString_cjk:
  assumes "digitRun 4 4 y" and "digitRun 2 2 m" and "digitRun 2 2 d"
  shows "parseDateString js (y @ yearChar @ m @ monthChar @ d @ dayChar)
           = Some (y @ ''-'' @ m @ ''-'' @ d)"
  using isoShape_joined [OF assms]
  by (simp only: parseDateString_def cjk_replaced [OF assms] Let_def if_True)

text \<open>
  Claim C8 has date normalization reject a month of 13 or a day of 32 by returning
  null. \<open>parseDateString\<close> of the CEA adapter returns the text \<open>2024-13-32\<close> as it is,
  for every engine: a text of the shape \<open>dddd-dd-dd\<close> is returned before any date is
  built from it, while the other branch of the same function asks the engine whether
  the date is valid, and \<open>normalizeDate\<close> of the CARB CSV adapter returns null for
  the same text. The date \<open>2024\<close> U+5E74 \<open>1\<close> U+6708 \<open>15\<close> U+65E5 of the comment above
  \<open>parseDateString\<close> becomes \<open>2024-1-15\<close>, which has not that shape, and what is
  returned is what the engine's date parser makes of the text as it was given.
\<close>

theorem parseDateString_accepts_month_13:
  "parseDateString js ''2024-13-32'' = Some ''2024-13-32'' \<and>
   normalizeDate ''2024-13-32'' = None \<and>
   parseDateString js (''2024'' @ yearChar @ ''1'' @ monthChar @ ''15'' @ dayChar)
     = dateToISODay js (''2024'' @ yearChar @ ''1'' @ monthChar @ ''15'' @ dayChar)"
proof -
  have a: "parseDateString js ''2024-13-32'' = Some ''2024-13-32''"
    by (simp add: parseDateString_def isoShape_def isDigit_def yearChar_def monthChar_def
          dayChar_def)
  have b: "normalizeDate ''2024-13-32'' = None"
    by (simp add: normalizeDate_def cleanDate_def isDigit_def isSep_def
          tryFormat_def matchFormat_def matchGroups_def digitRun_def parseInt_def
          digitVal_def validYMD_def Let_def)
  have c: "parseDateString js (''2024'' @ yearChar @ ''1'' @ monthChar @ ''15'' @ dayChar)
     = dateToISODay js (''2024'' @ yearChar @ ''1'' @ monthChar @ ''15'' @ dayChar)"
    by (simp add: parseDateString_def isoShape_def isDigit_def yearChar_def monthChar_def
          dayChar_def)
  from a b c show ?thesis by (intro conjI)
qed

end
